theory Spec2Isabelle
  imports Complex_Main "HOL-Library.Multiset"
begin

section \<open>JavaScript values used by the Player\<close>

text \<open>
  A timestamp or a duration is a JavaScript number, or \<open>undefined\<close> when the property
  is absent. \<open>Num\<close> carries a finite number and arithmetic on it is exact; \<open>NaN\<close> is
  the result of arithmetic on \<open>undefined\<close>.
\<close>

datatype jsnum = Undefined | NaN | Num real

text \<open>\<open>a - b\<close>: both operands go through ToNumber, \<open>undefined\<close> becomes \<open>NaN\<close>.\<close>

fun js_sub :: "jsnum \<Rightarrow> jsnum \<Rightarrow> jsnum" where
  "js_sub (Num a) (Num b) = Num (a - b)"
| "js_sub _ _ = NaN"

text \<open>\<open>a * b\<close>, used for \<open>1000 * seconds\<close>.\<close>

fun js_mul :: "jsnum \<Rightarrow> jsnum \<Rightarrow> jsnum" where
  "js_mul (Num a) (Num b) = Num (a * b)"
| "js_mul _ _ = NaN"

text \<open>\<open>a < b\<close>: false as soon as one side is \<open>undefined\<close> or \<open>NaN\<close>.\<close>

fun js_lt :: "jsnum \<Rightarrow> jsnum \<Rightarrow> bool" where
  "js_lt (Num a) (Num b) = (a < b)"
| "js_lt _ _ = False"

text \<open>
  \<open>current_frame\<close> is \<open>undefined\<close>, or a number the Player computed itself: \<open>-1\<close>, or
  the result of \<open>%\<close> on integers, which is an integer or \<open>NaN\<close> (division by zero).
\<close>

datatype jsidx = IUndefined | INaN | Idx int

text \<open>
  \<open>a % n\<close> for an integer \<open>a\<close> and an array length \<open>n\<close>: the remainder takes the sign
  of the dividend, and \<open>a % 0\<close> is \<open>NaN\<close>.
\<close>

definition js_rem :: "int \<Rightarrow> nat \<Rightarrow> jsidx" where
  "js_rem a n =
     (if n = 0 then INaN
      else if a < 0 then Idx (- ((- a) mod int n))
      else Idx (a mod int n))"

text \<open>The exceptions the Player can raise: reading a property of \<open>undefined\<close>.\<close>

datatype js_error = TypeError

datatype 'a completion = Return 'a | Throw js_error

text \<open>
  The values \<open>clouds.length\<close> can have when \<open>clouds\<close> is a mapping from type names to
  cloud objects, and \<open>0 == v\<close> on them: \<open>undefined\<close> is loosely equal to \<open>null\<close> and
  \<open>undefined\<close> only, and a plain object is converted to the number \<open>NaN\<close>.
\<close>

datatype jsval = VUndefined | VNumber real | VObject

fun loose_eq_zero :: "jsval \<Rightarrow> bool" where
  "loose_eq_zero (VNumber r) = (r = 0)"
| "loose_eq_zero VUndefined = False"
| "loose_eq_zero VObject = False"

subsection \<open>Numbers in status texts\<close>

definition digit_char :: "nat \<Rightarrow> char" where
  "digit_char d =
     (if d = 0 then CHR ''0'' else if d = 1 then CHR ''1'' else if d = 2 then CHR ''2''
      else if d = 3 then CHR ''3'' else if d = 4 then CHR ''4'' else if d = 5 then CHR ''5''
      else if d = 6 then CHR ''6'' else if d = 7 then CHR ''7'' else if d = 8 then CHR ''8''
      else CHR ''9'')"

function show_nat :: "nat \<Rightarrow> string" where
  "show_nat n = (if n < 10 then [digit_char n] else show_nat (n div 10) @ [digit_char (n mod 10)])"
  by pat_completeness auto
termination
  by (relation "measure (\<lambda>n. n)") auto

declare show_nat.simps [simp del]

definition show_int :: "int \<Rightarrow> string" where
  "show_int i = (if i < 0 then CHR ''-'' # show_nat (nat (- i)) else show_nat (nat i))"

text \<open>The text of \<open>current_frame + 1\<close> in a string concatenation.\<close>

fun show_succ :: "jsidx \<Rightarrow> string" where
  "show_succ (Idx i) = show_int (i + 1)"
| "show_succ _ = ''NaN''"

section \<open>Data\<close>

text \<open>The loaded geometry is opaque to the Player; a handle stands for it.\<close>

datatype point_cloud = Points nat

text \<open>
  The scene configuration: a frame has a timestamp and a mapping from the type of the
  point cloud (\<open>color\<close>, \<open>combined\<close>) to a cloud with its path.
\<close>

record cloud =
  cloud_path :: string

record frame_spec =
  spec_timestamp :: jsnum
  clouds :: "string \<rightharpoonup> cloud"

text \<open>The meta data that travels with a load request and comes back with its result.\<close>

record meta =
  meta_event_identifier :: nat
  meta_scene :: "string option"
  meta_index :: "nat option"
  num_frames :: nat
  meta_timestamp :: jsnum
  meta_path :: "string option"

text \<open>A stored frame; \<open>duration\<close> is absent until the frames are normalized.\<close>

record frame =
  timestamp :: jsnum
  path :: "string option"
  scene :: "string option"
  points :: point_cloud
  duration :: jsnum

text \<open>
  The Player: its five fields, then what it has done to its collaborators.
  \<^item> \<open>status_log\<close>: the texts given to \<open>status_callback\<close>, oldest first;
  \<^item> \<open>requests\<close>: the calls of \<open>renderer.loadPointCloud\<close> (path and meta; the name is
    always \<open>POINT_CLOUD_NAME\<close>), oldest first;
  \<^item> \<open>scene_cloud\<close>: the object named \<open>point_cloud\<close> in the renderer's scene;
  \<^item> \<open>rendered\<close>: what each \<open>renderer.render()\<close> of the Player drew, oldest first;
  \<^item> \<open>has_render_callback\<close>, \<open>render_calls\<close>: whether \<open>on_render_frame_callback\<close> is
    set, and the arguments of its calls (index, timestamp, path, scene);
  \<^item> \<open>timers\<close>: the delays, in milliseconds, of the pending \<open>setTimeout\<close> timers.
  \<open>event_identifier\<close> is a natural number: it starts at 0 and is only incremented, by
  one for each \<open>reset\<close>, and stays far below the 53rd power of 2, up to which doubles
  count exactly.
\<close>

record player =
  event_identifier :: nat
  is_playing :: bool
  loaded :: bool
  frames :: "frame list"
  current_frame :: jsidx
  status_log :: "string list"
  requests :: "(string \<times> meta) list"
  scene_cloud :: "point_cloud option"
  rendered :: "point_cloud option list"
  has_render_callback :: bool
  render_calls :: "(jsidx \<times> jsnum \<times> string option \<times> string option) list"
  timers :: "jsnum list"

section \<open>Sorting by timestamp\<close>

definition compareByTimestamp :: "frame \<Rightarrow> frame \<Rightarrow> int" where
  "compareByTimestamp a b =
     (let ta = timestamp a; tb = timestamp b
      in if js_lt ta tb then - 1 else if js_lt tb ta then 1 else 0)"

text \<open>
  \<open>Array.prototype.sort\<close> with a comparison function is a stable sort. Insertion from
  the right, placing an element before the first one it is not greater than, is stable,
  and every stable sort gives the same list when the comparison is consistent, as it is
  on numbers. On \<open>undefined\<close> or \<open>NaN\<close> timestamps the order of the result depends on
  the engine; the result is a permutation of the input in any case.
\<close>

fun sort_insert :: "('a \<Rightarrow> 'a \<Rightarrow> int) \<Rightarrow> 'a \<Rightarrow> 'a list \<Rightarrow> 'a list" where
  "sort_insert cmp x [] = [x]"
| "sort_insert cmp x (y # ys) =
     (if cmp x y \<le> 0 then x # y # ys else y # sort_insert cmp x ys)"

fun array_sort :: "('a \<Rightarrow> 'a \<Rightarrow> int) \<Rightarrow> 'a list \<Rightarrow> 'a list" where
  "array_sort cmp [] = []"
| "array_sort cmp (x # xs) = sort_insert cmp x (array_sort cmp xs)"

section \<open>Normalization\<close>

text \<open>The first loop of \<open>normalizeTimeStamps\<close>: \<open>frames[index].timestamp -= offset\<close>.\<close>

definition rebase :: "jsnum \<Rightarrow> frame list \<Rightarrow> frame list" where
  "rebase offset fs = map (\<lambda>f. f\<lparr>timestamp := js_sub (timestamp f) offset\<rparr>) fs"

text \<open>
  The second loop: every frame but the last gets the difference to its successor's
  timestamp as its duration.
\<close>

fun set_durations :: "frame list \<Rightarrow> frame list" where
  "set_durations (f # g # fs) =
     f\<lparr>duration := js_sub (timestamp g) (timestamp f)\<rparr> # set_durations (g # fs)"
| "set_durations fs = fs"

text \<open>\<open>frames[frames.length - 1].duration = 1.0\<close>, on a list that is not empty.\<close>

definition set_last_duration :: "frame list \<Rightarrow> frame list" where
  "set_last_duration fs = fs[length fs - 1 := (fs ! (length fs - 1))\<lparr>duration := Num 1\<rparr>]"

definition normalizeTimeStamps :: "player \<Rightarrow> player" where
  "normalizeTimeStamps s =
     (if length (frames s) = 0 then s
      else let offset = timestamp (frames s ! 0)
           in s\<lparr>frames := set_last_duration (set_durations (rebase offset (frames s)))\<rparr>)"

definition normalizeFrames :: "player \<Rightarrow> player" where
  "normalizeFrames s =
     normalizeTimeStamps (s\<lparr>frames := array_sort compareByTimestamp (frames s)\<rparr>)"

section \<open>The Player\<close>

definition new_player :: "bool \<Rightarrow> player" where
  "new_player callback =
     \<lparr>event_identifier = 0, is_playing = False, loaded = False, frames = [],
      current_frame = IUndefined, status_log = [], requests = [], scene_cloud = None,
      rendered = [], has_render_callback = callback, render_calls = [], timers = []\<rparr>"

definition status :: "string \<Rightarrow> player \<Rightarrow> player" where
  "status text s = s\<lparr>status_log := status_log s @ [text]\<rparr>"

subsection \<open>The renderer, as the Player uses it\<close>

definition removePointCloud :: "player \<Rightarrow> player" where
  "removePointCloud s = s\<lparr>scene_cloud := None\<rparr>"

definition addToScene :: "point_cloud \<Rightarrow> player \<Rightarrow> player" where
  "addToScene p s = s\<lparr>scene_cloud := Some p\<rparr>"

definition render :: "player \<Rightarrow> player" where
  "render s = s\<lparr>rendered := rendered s @ [scene_cloud s]\<rparr>"

text \<open>
  \<open>loadPointCloud\<close> hands the request to the loader. The result comes back later,
  as a call of \<open>pointCloudLoaded\<close> with the loaded points and the same meta data.
\<close>

definition loadPointCloud :: "string \<Rightarrow> meta \<Rightarrow> player \<Rightarrow> player" where
  "loadPointCloud full_path m s = s\<lparr>requests := requests s @ [(full_path, m)]\<rparr>"

subsection \<open>Pause and reset\<close>

definition pause :: "player \<Rightarrow> player" where
  "pause s = s\<lparr>is_playing := False\<rparr>"

definition reset :: "player \<Rightarrow> player" where
  "reset s =
     removePointCloud
       ((pause s)\<lparr>loaded := False, current_frame := IUndefined, frames := [],
                   event_identifier := event_identifier s + 1\<rparr>)"

subsection \<open>Showing a frame\<close>

text \<open>\<open>frames[current_frame]\<close>: \<open>undefined\<close> (here \<open>None\<close>) outside the array.\<close>

fun frame_at :: "frame list \<Rightarrow> jsidx \<Rightarrow> frame option" where
  "frame_at fs (Idx i) = (if 0 \<le> i \<and> i < int (length fs) then Some (fs ! nat i) else None)"
| "frame_at fs _ = None"

definition showCurrentFrame :: "player \<Rightarrow> unit completion \<times> player" where
  "showCurrentFrame s =
     (let s1 = status (''Frame '' @ show_succ (current_frame s) @ '' of ''
                        @ show_nat (length (frames s)) @ ''.'') s;
          s2 = removePointCloud s1
      in case frame_at (frames s) (current_frame s) of
           None \<Rightarrow> (Throw TypeError, s2)
         | Some frame \<Rightarrow>
             (let s3 = render (addToScene (points frame) s2)
              in if has_render_callback s3
                 then (Return (), s3\<lparr>render_calls := render_calls s3 @
                         [(current_frame s, timestamp frame, path frame, scene frame)]\<rparr>)
                 else (Return (), s3)))"

text \<open>\<open>(current_frame + 1) % frames.length\<close>; the guard has excluded \<open>undefined\<close>.\<close>

fun next_index :: "jsidx \<Rightarrow> nat \<Rightarrow> jsidx" where
  "next_index (Idx i) n = js_rem (i + 1) n"
| "next_index _ n = INaN"

text \<open>\<open>(frames.length + current_frame - 1) % frames.length\<close>.\<close>

fun previous_index :: "jsidx \<Rightarrow> nat \<Rightarrow> jsidx" where
  "previous_index (Idx i) n = js_rem (int n + i - 1) n"
| "previous_index _ n = INaN"

definition nextFrame :: "player \<Rightarrow> unit completion \<times> player" where
  "nextFrame s =
     (if current_frame s = IUndefined \<or> \<not> loaded s then (Return (), s)
      else showCurrentFrame
             (s\<lparr>current_frame := next_index (current_frame s) (length (frames s))\<rparr>))"

definition previousFrame :: "player \<Rightarrow> unit completion \<times> player" where
  "previousFrame s =
     (if current_frame s = IUndefined \<or> \<not> loaded s then (Return (), s)
      else showCurrentFrame
             (s\<lparr>current_frame := previous_index (current_frame s) (length (frames s))\<rparr>))"

subsection \<open>Playback\<close>

definition createNextFrameTimer :: "player \<Rightarrow> unit completion \<times> player" where
  "createNextFrameTimer s =
     (case frame_at (frames s) (current_frame s) of
        None \<Rightarrow> (Throw TypeError, s)
      | Some frame \<Rightarrow>
          (let seconds = duration frame
           in (Return (), s\<lparr>timers := timers s @ [js_mul (Num 1000) seconds]\<rparr>)))"

definition play :: "player \<Rightarrow> bool completion \<times> player" where
  "play s =
     (if length (frames s) < 2 then (Return False, s)
      else if \<not> loaded s then (Return False, s)
      else if is_playing s then (let s1 = pause s in (Return (is_playing s1), s1))
      else (case createNextFrameTimer (s\<lparr>is_playing := True\<rparr>) of
              (Throw e, s1) \<Rightarrow> (Throw e, s1)
            | (Return _, s1) \<Rightarrow> (Return (is_playing s1), s1)))"

definition playNextFrameCallback :: "player \<Rightarrow> unit completion \<times> player" where
  "playNextFrameCallback s =
     (if \<not> is_playing s then (Return (), s)
      else (case nextFrame s of
              (Throw e, s1) \<Rightarrow> (Throw e, s1)
            | (Return _, s1) \<Rightarrow> createNextFrameTimer s1))"

subsection \<open>Loading\<close>

definition pointCloudLoaded :: "point_cloud \<Rightarrow> meta \<Rightarrow> player \<Rightarrow> unit completion \<times> player" where
  "pointCloudLoaded pts m s =
     (if event_identifier s \<noteq> meta_event_identifier m then (Return (), s)
      else
        (let s1 = s\<lparr>frames := frames s @
                     [\<lparr>timestamp = meta_timestamp m, path = meta_path m,
                       scene = meta_scene m, points = pts, duration = Undefined\<rparr>]\<rparr>;
             s2 = status (''Loaded '' @ show_nat (length (frames s1)) @ '' frames of ''
                           @ show_nat (num_frames m) @ ''.'') s1
         in if length (frames s2) = num_frames m
            then nextFrame
                   ((status ''Ready.'' (normalizeFrames s2))
                      \<lparr>current_frame := Idx (- 1), loaded := True\<rparr>)
            else (Return (), s2)))"

text \<open>\<open>clouds.length\<close>: a mapping has it only as an entry named \<open>length\<close>.\<close>

definition clouds_length :: "(string \<rightharpoonup> cloud) \<Rightarrow> jsval" where
  "clouds_length c = (case c ''length'' of None \<Rightarrow> VUndefined | Some _ \<Rightarrow> VObject)"

text \<open>
  The loop of \<open>loadPointClouds\<close> from \<open>index\<close> on, over the frames still to visit;
  \<open>n\<close> is \<open>frames.length\<close>. \<open>cloud["path"]\<close> raises when the mapping has no cloud of
  the selected type.
\<close>

fun load_loop :: "string \<Rightarrow> nat \<Rightarrow> string \<Rightarrow> nat \<Rightarrow> frame_spec list \<Rightarrow> player
                  \<Rightarrow> unit completion \<times> player" where
  "load_loop name n type_identifier index [] s = (Return (), s)"
| "load_loop name n type_identifier index (frame # rest) s =
     (if loose_eq_zero (clouds_length (clouds frame))
      then (Return (), status ''No clouds in frame.'' s)
      else (case clouds frame type_identifier of
              None \<Rightarrow> (Throw TypeError, s)
            | Some cloud \<Rightarrow>
                (let path = cloud_path cloud;
                     full_path = ''pointclouds/'' @ path;
                     m = \<lparr>meta_event_identifier = event_identifier s,
                          meta_scene = Some name, meta_index = Some index,
                          num_frames = n, meta_timestamp = spec_timestamp frame,
                          meta_path = Some path\<rparr>
                 in load_loop name n type_identifier (index + 1) rest
                      (loadPointCloud full_path m (status ''Loading point clouds...'' s)))))"

definition loadPointClouds :: "string \<Rightarrow> frame_spec list \<Rightarrow> string \<Rightarrow> player
                               \<Rightarrow> unit completion \<times> player" where
  "loadPointClouds name fs type_identifier s =
     (let s1 = reset (status ''Loading point clouds.'' s)
      in if 0 = length fs then (Return (), status ''No frames in scene.'' s1)
         else load_loop name (length fs) type_identifier 0 fs s1)"

definition loadSinglePointCloud :: "string \<Rightarrow> player \<Rightarrow> player" where
  "loadSinglePointCloud full_path s =
     (let s1 = reset s;
          m = \<lparr>meta_event_identifier = event_identifier s1, meta_scene = None,
               meta_index = None, num_frames = 1, meta_timestamp = Undefined,
               meta_path = None\<rparr>
      in loadPointCloud full_path m s1)"

section \<open>Runs of the Player\<close>

text \<open>
  What can happen to a Player: a command of the controlling layer, the result of a load
  coming back, or the pending timer number \<open>k\<close> firing. An exception ends the handler
  that raised it and leaves the state as it was at that moment.
\<close>

datatype event =
    LoadPointClouds string "frame_spec list" string
  | LoadSinglePointCloud string
  | Reset
  | PointCloudLoaded point_cloud meta
  | NextFrame
  | PreviousFrame
  | Play
  | Pause
  | TimerFired nat

fun step :: "event \<Rightarrow> player \<Rightarrow> player" where
  "step (LoadPointClouds name fs type_identifier) s = snd (loadPointClouds name fs type_identifier s)"
| "step (LoadSinglePointCloud full_path) s = loadSinglePointCloud full_path s"
| "step Reset s = reset s"
| "step (PointCloudLoaded pts m) s = snd (pointCloudLoaded pts m s)"
| "step NextFrame s = snd (nextFrame s)"
| "step PreviousFrame s = snd (previousFrame s)"
| "step Play s = snd (play s)"
| "step Pause s = pause s"
| "step (TimerFired k) s =
     (if k < length (timers s)
      then snd (playNextFrameCallback (s\<lparr>timers := take k (timers s) @ drop (Suc k) (timers s)\<rparr>))
      else s)"

fun run :: "event list \<Rightarrow> player \<Rightarrow> player" where
  "run [] s = s"
| "run (e # es) s = run es (step e s)"

section \<open>Vocabulary of the properties\<close>

subsection \<open>Numeric timestamps\<close>

text \<open>A frame list is numeric when every timestamp is a number.\<close>

fun is_number :: "jsnum \<Rightarrow> bool" where
  "is_number (Num r) = True"
| "is_number _ = False"

fun num_value :: "jsnum \<Rightarrow> real" where
  "num_value (Num r) = r"
| "num_value _ = 0"

definition numeric :: "frame list \<Rightarrow> bool" where
  "numeric fs = list_all (\<lambda>f. is_number (timestamp f)) fs"

subsection \<open>The state invariant\<close>

text \<open>
  The current index is valid for \<open>n\<close> frames when it is \<open>undefined\<close> or lies in
  \<open>[0, n)\<close>. The state invariant: the index is defined only when \<open>loaded\<close> holds,
  it is valid, and \<open>is_playing\<close> implies \<open>loaded\<close> and at least two frames.
  \<open>index_defined\<close> is the converse for the index: a loaded Player has one.
\<close>

fun valid_index :: "jsidx \<Rightarrow> nat \<Rightarrow> bool" where
  "valid_index IUndefined n = True"
| "valid_index INaN n = False"
| "valid_index (Idx i) n = (0 \<le> i \<and> i < int n)"

definition index_in_range :: "player \<Rightarrow> bool" where
  "index_in_range s = valid_index (current_frame s) (length (frames s))"

definition state_invariant :: "player \<Rightarrow> bool" where
  "state_invariant s =
     ((current_frame s \<noteq> IUndefined \<longrightarrow> loaded s) \<and>
      index_in_range s \<and>
      (is_playing s \<longrightarrow> loaded s \<and> 2 \<le> length (frames s)))"

definition index_defined :: "player \<Rightarrow> bool" where
  "index_defined s = (loaded s \<longrightarrow> current_frame s \<noteq> IUndefined)"

subsection \<open>Load results\<close>

text \<open>
  The frame \<open>pointCloudLoaded\<close> stores for a result; the results delivered in a run;
  a list of results as a run; and the frames stored for a list of results.
\<close>

definition stored_frame :: "point_cloud \<Rightarrow> meta \<Rightarrow> frame" where
  "stored_frame pts m =
     \<lparr>timestamp = meta_timestamp m, path = meta_path m, scene = meta_scene m,
      points = pts, duration = Undefined\<rparr>"

fun deliveries :: "event list \<Rightarrow> (point_cloud \<times> meta) list" where
  "deliveries [] = []"
| "deliveries (PointCloudLoaded pts m # es) = (pts, m) # deliveries es"
| "deliveries (e # es) = deliveries es"

definition deliver :: "(point_cloud \<times> meta) list \<Rightarrow> event list" where
  "deliver ds = map (\<lambda>(pts, m). PointCloudLoaded pts m) ds"

definition stored_frames :: "(point_cloud \<times> meta) list \<Rightarrow> frame list" where
  "stored_frames ds = map (\<lambda>(pts, m). stored_frame pts m) ds"

text \<open>
  \<open>frames_tagged s D\<close>: the points of every frame of \<open>s\<close> were delivered, in \<open>D\<close>,
  with the event identifier \<open>s\<close> has. \<open>tagged eid n ds\<close>: every result in \<open>ds\<close> carries
  the event identifier \<open>eid\<close> and the frame count \<open>n\<close>. \<open>issued eid n fs rs\<close>: the
  requests \<open>rs\<close> are those of the frames \<open>fs\<close>, one each, in order, with that
  identifier and count.
\<close>

definition frames_tagged :: "player \<Rightarrow> (point_cloud \<times> meta) set \<Rightarrow> bool" where
  "frames_tagged s D =
     (\<forall>pts \<in> set (map points (frames s)).
        \<exists>m. (pts, m) \<in> D \<and> meta_event_identifier m = event_identifier s)"

definition tagged :: "nat \<Rightarrow> nat \<Rightarrow> (point_cloud \<times> meta) list \<Rightarrow> bool" where
  "tagged eid n ds =
     list_all (\<lambda>d. meta_event_identifier (snd d) = eid \<and> num_frames (snd d) = n) ds"

definition issued :: "nat \<Rightarrow> nat \<Rightarrow> frame_spec list \<Rightarrow> (string \<times> meta) list \<Rightarrow> bool" where
  "issued eid n fs rs =
     (length rs = length fs \<and>
      list_all (\<lambda>r. meta_event_identifier (snd r) = eid \<and> num_frames (snd r) = n) rs \<and>
      map (\<lambda>r. meta_timestamp (snd r)) rs = map spec_timestamp fs)"

subsection \<open>Example runs\<close>

text \<open>
  A scene of two frames, at the timestamps 5 and 3, loaded on a new Player; its results
  come back in the order of the requests (\<open>example_trace\<close>) or in the other order
  (\<open>example_results\<close>).
\<close>

definition example_specs :: "frame_spec list" where
  "example_specs =
     [\<lparr>spec_timestamp = Num 5, clouds = [''color'' \<mapsto> \<lparr>cloud_path = ''a.pcd''\<rparr>]\<rparr>,
      \<lparr>spec_timestamp = Num 3, clouds = [''color'' \<mapsto> \<lparr>cloud_path = ''b.pcd''\<rparr>]\<rparr>]"

definition example_meta :: "nat \<Rightarrow> real \<Rightarrow> string \<Rightarrow> meta" where
  "example_meta index t p =
     \<lparr>meta_event_identifier = 1, meta_scene = Some ''s'', meta_index = Some index,
      num_frames = 2, meta_timestamp = Num t, meta_path = Some p\<rparr>"

definition example_trace :: "event list" where
  "example_trace =
     [LoadPointClouds ''s'' example_specs ''color'',
      PointCloudLoaded (Points 1) (example_meta 0 5 ''a.pcd''),
      PointCloudLoaded (Points 2) (example_meta 1 3 ''b.pcd'')]"

definition example_player :: player where
  "example_player = run example_trace (new_player False)"

definition example_results :: "(point_cloud \<times> meta) list" where
  "example_results =
     [(Points 2, example_meta 1 3 ''b.pcd''), (Points 1, example_meta 0 5 ''a.pcd'')]"

text \<open>
  A second scene is requested while the first still waits for its second frame; that
  frame's result arrives afterwards, then the result of the second scene.
\<close>

definition overlap_specs :: "frame_spec list" where
  "overlap_specs =
     [\<lparr>spec_timestamp = Num 1, clouds = [''color'' \<mapsto> \<lparr>cloud_path = ''c.pcd''\<rparr>]\<rparr>]"

definition overlap_trace :: "event list" where
  "overlap_trace =
     [LoadPointClouds ''s'' example_specs ''color'',
      PointCloudLoaded (Points 1) (example_meta 0 5 ''a.pcd''),
      LoadPointClouds ''t'' overlap_specs ''color'',
      PointCloudLoaded (Points 2) (example_meta 1 3 ''b.pcd''),
      PointCloudLoaded (Points 3)
        \<lparr>meta_event_identifier = 2, meta_scene = Some ''t'', meta_index = Some 0,
         num_frames = 1, meta_timestamp = Num 1, meta_path = Some ''c.pcd''\<rparr>]"

text \<open>A scene whose second frame has no clouds.\<close>

definition empty_clouds_first :: frame_spec where
  "empty_clouds_first =
     \<lparr>spec_timestamp = Num 0, clouds = [''color'' \<mapsto> \<lparr>cloud_path = ''a.pcd''\<rparr>]\<rparr>"

definition empty_clouds_second :: frame_spec where
  "empty_clouds_second = \<lparr>spec_timestamp = Num 1, clouds = Map.empty\<rparr>"

section \<open>Sorting and normalization\<close>

lemma is_numberE: "is_number t \<Longrightarrow> (\<And>r. t = Num r \<Longrightarrow> P) \<Longrightarrow> P"
  by (cases t) simp_all

lemma numericD: "numeric fs \<Longrightarrow> f \<in> set fs \<Longrightarrow> is_number (timestamp f)"
  by (simp add: numeric_def list_all_iff)

lemma compare_numeric:
  "timestamp x = Num a \<Longrightarrow> timestamp y = Num b \<Longrightarrow> (compareByTimestamp x y \<le> 0) = (a \<le> b)"
  by (auto simp: compareByTimestamp_def)

lemma sort_insert_numeric:
  "numeric (x # ys) \<Longrightarrow>
   sort_insert compareByTimestamp x ys = insort_key (\<lambda>f. num_value (timestamp f)) x ys"
proof (induction ys)
  case Nil
  then show ?case by simp
next
  case (Cons y ys)
  from Cons.prems have "is_number (timestamp x)" and "is_number (timestamp y)"
    by (simp_all add: numeric_def)
  then obtain a b where ab: "timestamp x = Num a" "timestamp y = Num b"
    by (cases "timestamp x"; cases "timestamp y"; simp)
  from Cons.prems have "numeric (x # ys)" by (simp add: numeric_def)
  with Cons.IH have IH: "sort_insert compareByTimestamp x ys = insort_key (\<lambda>f. num_value (timestamp f)) x ys"
    by simp
  show ?case
    using IH compare_numeric [OF ab] ab by simp
qed

lemma set_sort_insert: "set (sort_insert cmp x xs) = insert x (set xs)"
  by (induction xs) auto

lemma set_array_sort: "set (array_sort cmp xs) = set xs"
  by (induction xs) (auto simp: set_sort_insert)

lemma mset_sort_insert: "mset (sort_insert cmp x xs) = add_mset x (mset xs)"
  by (induction xs) auto

lemma mset_array_sort: "mset (array_sort cmp xs) = mset xs"
  by (induction xs) (auto simp: mset_sort_insert)

lemma length_array_sort: "length (array_sort cmp xs) = length xs"
proof -
  have "size (mset (array_sort cmp xs)) = size (mset xs)" by (simp only: mset_array_sort)
  then show ?thesis by simp
qed

lemma array_sort_numeric:
  "numeric fs \<Longrightarrow> array_sort compareByTimestamp fs = sort_key (\<lambda>f. num_value (timestamp f)) fs"
proof (induction fs)
  case Nil
  then show ?case by simp
next
  case (Cons f fs)
  then have "numeric fs" by (simp add: numeric_def)
  with Cons.IH have IH: "array_sort compareByTimestamp fs = sort_key (\<lambda>f. num_value (timestamp f)) fs"
    by simp
  from Cons.prems have "numeric (f # array_sort compareByTimestamp fs)"
    by (simp add: numeric_def list_all_iff set_array_sort)
  then show ?case
    using IH by (simp add: sort_insert_numeric)
qed

lemma length_rebase: "length (rebase off fs) = length fs"
  by (simp add: rebase_def)

lemma points_rebase: "map points (rebase off fs) = map points fs"
  by (simp add: rebase_def)

lemma timestamp_rebase:
  "numeric fs \<Longrightarrow>
   map timestamp (rebase (Num off) fs) = map (\<lambda>f. Num (num_value (timestamp f) - off)) fs"
proof -
  assume n: "numeric fs"
  have "js_sub (timestamp f) (Num off) = Num (num_value (timestamp f) - off)" if "f \<in> set fs" for f
  proof -
    from n that have "is_number (timestamp f)" by (rule numericD)
    then obtain r where "timestamp f = Num r" by (rule is_numberE)
    then show ?thesis by simp
  qed
  then show ?thesis by (simp add: rebase_def)
qed

lemma length_set_durations: "length (set_durations fs) = length fs"
  by (induction fs rule: set_durations.induct) simp_all

lemma timestamp_set_durations: "map timestamp (set_durations fs) = map timestamp fs"
  by (induction fs rule: set_durations.induct) simp_all

lemma points_set_durations: "map points (set_durations fs) = map points fs"
  by (induction fs rule: set_durations.induct) simp_all

lemma duration_set_durations:
  "Suc i < length fs \<Longrightarrow>
   duration (set_durations fs ! i) = js_sub (timestamp (fs ! Suc i)) (timestamp (fs ! i))"
proof (induction fs arbitrary: i rule: set_durations.induct)
  case (1 f g fs)
  then show ?case by (cases i) simp_all
qed simp_all

lemma length_set_last_duration: "length (set_last_duration fs) = length fs"
  by (simp add: set_last_duration_def)

lemma map_update_same: "f x = f (xs ! k) \<Longrightarrow> map f (xs[k := x]) = map f xs"
  by (induction xs arbitrary: k) (auto split: nat.splits)

lemma timestamp_set_last_duration: "map timestamp (set_last_duration fs) = map timestamp fs"
  by (simp add: set_last_duration_def map_update_same)

lemma points_set_last_duration: "map points (set_last_duration fs) = map points fs"
  by (simp add: set_last_duration_def map_update_same)

lemma duration_set_last_duration:
  "fs \<noteq> [] \<Longrightarrow> duration (set_last_duration fs ! i) =
     (if i = length fs - 1 then Num 1 else duration (fs ! i))"
  by (simp add: set_last_duration_def nth_list_update)


lemma sorted_shift: "sorted (xs :: real list) \<Longrightarrow> sorted (map (\<lambda>r. r - c) xs)"
  by (induction xs) auto

lemma numeric_array_sort: "numeric fs \<Longrightarrow> numeric (array_sort cmp fs)"
  by (simp add: numeric_def list_all_iff set_array_sort)

lemma normalizeFrames_frames:
  "frames s \<noteq> [] \<Longrightarrow>
   frames (normalizeFrames s) =
     set_last_duration (set_durations
       (rebase (timestamp (array_sort compareByTimestamp (frames s) ! 0))
          (array_sort compareByTimestamp (frames s))))"
proof -
  assume "frames s \<noteq> []"
  then have "length (array_sort compareByTimestamp (frames s)) \<noteq> 0"
    by (simp add: length_array_sort)
  then show ?thesis
    by (simp add: normalizeFrames_def normalizeTimeStamps_def)
qed

lemma normalized_numeric:
  assumes ne: "fs \<noteq> []" and num: "numeric fs"
  defines "srt \<equiv> array_sort compareByTimestamp fs"
  defines "res \<equiv> set_last_duration (set_durations (rebase (timestamp (srt ! 0)) srt))"
  shows "length res = length fs"
    and "mset (map points res) = mset (map points fs)"
    and "\<exists>ts. map timestamp res = map Num ts \<and> sorted ts"
    and "timestamp (res ! 0) = Num 0"
    and "\<forall>i. Suc i < length res \<longrightarrow>
           duration (res ! i) = js_sub (timestamp (res ! Suc i)) (timestamp (res ! i))"
    and "duration (res ! (length res - 1)) = Num 1"
proof -
  let ?k = "\<lambda>f. num_value (timestamp f)"
  have len_srt: "length srt = length fs"
    by (simp add: srt_def length_array_sort)
  then have srt_ne: "srt \<noteq> []" using ne by auto
  have num_srt: "numeric srt"
    unfolding srt_def using num by (rule numeric_array_sort)
  have "srt ! 0 \<in> set srt" using srt_ne by simp
  with num_srt have "is_number (timestamp (srt ! 0))" by (rule numericD)
  then obtain off where off: "timestamp (srt ! 0) = Num off" by (rule is_numberE)
  have srt_key: "srt = sort_key ?k fs"
    unfolding srt_def using num by (rule array_sort_numeric)
  have sorted_keys: "sorted (map ?k srt)"
    by (simp add: srt_key)
  let ?rb = "rebase (Num off) srt"
  have res: "res = set_last_duration (set_durations ?rb)"
    by (simp add: res_def off)
  have ts: "map timestamp res = map Num (map (\<lambda>r. r - off) (map ?k srt))"
    by (simp add: res timestamp_set_last_duration timestamp_set_durations
        timestamp_rebase [OF num_srt] comp_def)
  show len: "length res = length fs"
    by (simp add: res length_set_last_duration length_set_durations length_rebase len_srt)
  have "map points res = map points srt"
    by (simp add: res points_set_last_duration points_set_durations points_rebase)
  then have "mset (map points res) = image_mset points (mset srt)" by simp
  then show "mset (map points res) = mset (map points fs)"
    by (simp add: srt_def mset_array_sort)
  show "\<exists>ts. map timestamp res = map Num ts \<and> sorted ts"
    using ts sorted_shift [OF sorted_keys] by blast
  have res_ne: "res \<noteq> []" using len ne by auto
  have "timestamp (res ! 0) = map timestamp res ! 0"
    using res_ne by simp
  also have "\<dots> = Num (?k (srt ! 0) - off)"
    using srt_ne by (simp add: ts)
  finally show "timestamp (res ! 0) = Num 0"
    by (simp add: off)
  have ne2: "set_durations ?rb \<noteq> []"
    using srt_ne by (metis length_set_durations length_rebase length_0_conv)
  have len2: "length (set_durations ?rb) = length res"
    by (simp add: res length_set_last_duration)
  show "\<forall>i. Suc i < length res \<longrightarrow>
           duration (res ! i) = js_sub (timestamp (res ! Suc i)) (timestamp (res ! i))"
  proof (intro allI impI)
    fix i assume i: "Suc i < length res"
    then have i2: "Suc i < length ?rb"
      by (simp add: res length_set_last_duration length_set_durations)
    have "i \<noteq> length (set_durations ?rb) - 1"
      using i len2 by linarith
    then have "duration (res ! i) = duration (set_durations ?rb ! i)"
      unfolding res by (simp only: duration_set_last_duration [OF ne2] if_False)
    also have "\<dots> = js_sub (timestamp (?rb ! Suc i)) (timestamp (?rb ! i))"
      using i2 by (rule duration_set_durations)
    also have "timestamp (?rb ! Suc i) = map timestamp ?rb ! Suc i"
      using i2 by simp
    also have "map timestamp ?rb = map timestamp res"
      by (simp add: res timestamp_set_last_duration timestamp_set_durations)
    also have "map timestamp res ! Suc i = timestamp (res ! Suc i)"
      using i by simp
    also have "timestamp (?rb ! i) = map timestamp ?rb ! i"
      using i2 by simp
    also have "map timestamp ?rb = map timestamp res"
      by (simp add: res timestamp_set_last_duration timestamp_set_durations)
    also have "map timestamp res ! i = timestamp (res ! i)"
      using i by simp
    finally show "duration (res ! i) = js_sub (timestamp (res ! Suc i)) (timestamp (res ! i))" .
  qed
  have "duration (res ! (length (set_durations ?rb) - 1)) = Num 1"
    unfolding res by (simp only: duration_set_last_duration [OF ne2] if_True refl)
  then show "duration (res ! (length res - 1)) = Num 1"
    by (simp only: len2)
qed


lemma normalize_example:
  "(let fs = frames (normalizeFrames (s\<lparr>frames :=
        [\<lparr>timestamp = Num 5, path = p1, scene = sc1, points = a, duration = d1\<rparr>,
         \<lparr>timestamp = Num 3, path = p2, scene = sc2, points = b, duration = d2\<rparr>,
         \<lparr>timestamp = Num 9, path = p3, scene = sc3, points = c, duration = d3\<rparr>]\<rparr>))
    in map timestamp fs = [Num 0, Num 2, Num 6] \<and>
       map duration fs = [Num 2, Num 4, Num 1] \<and>
       map points fs = [b, a, c])"
  by (simp add: normalizeFrames_def normalizeTimeStamps_def rebase_def set_last_duration_def
      compareByTimestamp_def)

text \<open>
  C2. On a frame list that is not empty and whose timestamps are all numbers,
  \<open>normalizeFrames\<close> keeps the frames and their number, leaves the timestamps sorted
  ascending with the first one equal to 0, gives every frame but the last the difference
  to its successor's timestamp as duration, and gives the last frame the duration 1.
  Frames at the timestamps 5, 3, 9 end with the timestamps 0, 2, 6 and the durations
  2, 4, 1.
\<close>

theorem normalizeFrames_sorted_rebased:
  "(frames s \<noteq> [] \<and> numeric (frames s) \<longrightarrow>
     (let fs = frames (normalizeFrames s)
      in length fs = length (frames s) \<and>
         mset (map points fs) = mset (map points (frames s)) \<and>
         (\<exists>ts. map timestamp fs = map Num ts \<and> sorted ts) \<and>
         timestamp (fs ! 0) = Num 0 \<and>
         (\<forall>i. Suc i < length fs \<longrightarrow>
            duration (fs ! i) = js_sub (timestamp (fs ! Suc i)) (timestamp (fs ! i))) \<and>
         duration (fs ! (length fs - 1)) = Num 1))
   \<and>
   (let fs = frames (normalizeFrames (s\<lparr>frames :=
        [\<lparr>timestamp = Num 5, path = p1, scene = sc1, points = a, duration = d1\<rparr>,
         \<lparr>timestamp = Num 3, path = p2, scene = sc2, points = b, duration = d2\<rparr>,
         \<lparr>timestamp = Num 9, path = p3, scene = sc3, points = c, duration = d3\<rparr>]\<rparr>))
    in map timestamp fs = [Num 0, Num 2, Num 6] \<and>
       map duration fs = [Num 2, Num 4, Num 1] \<and>
       map points fs = [b, a, c])"
proof (intro conjI impI)
  assume h: "frames s \<noteq> [] \<and> numeric (frames s)"
  then have ne: "frames s \<noteq> []" and num: "numeric (frames s)" by simp_all
  show "let fs = frames (normalizeFrames s)
      in length fs = length (frames s) \<and>
         mset (map points fs) = mset (map points (frames s)) \<and>
         (\<exists>ts. map timestamp fs = map Num ts \<and> sorted ts) \<and>
         timestamp (fs ! 0) = Num 0 \<and>
         (\<forall>i. Suc i < length fs \<longrightarrow>
            duration (fs ! i) = js_sub (timestamp (fs ! Suc i)) (timestamp (fs ! i))) \<and>
         duration (fs ! (length fs - 1)) = Num 1"
    unfolding Let_def normalizeFrames_frames [OF ne]
    using normalized_numeric [OF ne num] by (intro conjI)
next
  show "let fs = frames (normalizeFrames (s\<lparr>frames :=
        [\<lparr>timestamp = Num 5, path = p1, scene = sc1, points = a, duration = d1\<rparr>,
         \<lparr>timestamp = Num 3, path = p2, scene = sc2, points = b, duration = d2\<rparr>,
         \<lparr>timestamp = Num 9, path = p3, scene = sc3, points = c, duration = d3\<rparr>]\<rparr>))
    in map timestamp fs = [Num 0, Num 2, Num 6] \<and>
       map duration fs = [Num 2, Num 4, Num 1] \<and>
       map points fs = [b, a, c]"
    by (rule normalize_example)
qed

text \<open>The theorem at two frames with the timestamps 7 and 4.\<close>

theorem normalizeFrames_sorted_rebased_witness:
  "(let s = (new_player False)\<lparr>frames :=
        [\<lparr>timestamp = Num 7, path = None, scene = None, points = Points 1, duration = Undefined\<rparr>,
         \<lparr>timestamp = Num 4, path = None, scene = None, points = Points 2, duration = Undefined\<rparr>]\<rparr>;
        fs = frames (normalizeFrames s)
    in frames s \<noteq> [] \<and> numeric (frames s) \<and> length fs = 2 \<and>
       timestamp (fs ! 0) = Num 0 \<and>
       duration (fs ! 0) = js_sub (timestamp (fs ! 1)) (timestamp (fs ! 0)) \<and>
       duration (fs ! 1) = Num 1)"
  using normalizeFrames_sorted_rebased [of "(new_player False)\<lparr>frames :=
        [\<lparr>timestamp = Num 7, path = None, scene = None, points = Points 1, duration = Undefined\<rparr>,
         \<lparr>timestamp = Num 4, path = None, scene = None, points = Points 2, duration = Undefined\<rparr>]\<rparr>"]
  by (simp add: Let_def numeric_def new_player_def normalizeFrames_def normalizeTimeStamps_def
      rebase_def set_last_duration_def compareByTimestamp_def)

section \<open>What each operation changes\<close>

lemma js_rem_range: "0 < n \<Longrightarrow> 0 \<le> a \<Longrightarrow> js_rem a n = Idx (a mod int n)"
  by (simp add: js_rem_def)

lemma length_normalizeFrames: "length (frames (normalizeFrames s)) = length (frames s)"
  by (simp add: normalizeFrames_def normalizeTimeStamps_def Let_def length_array_sort
      length_set_last_duration length_set_durations length_rebase)

lemma normalizeFrames_fields:
  "event_identifier (normalizeFrames s) = event_identifier s"
  "is_playing (normalizeFrames s) = is_playing s"
  "loaded (normalizeFrames s) = loaded s"
  "current_frame (normalizeFrames s) = current_frame s"
  "status_log (normalizeFrames s) = status_log s"
  "requests (normalizeFrames s) = requests s"
  "scene_cloud (normalizeFrames s) = scene_cloud s"
  "rendered (normalizeFrames s) = rendered s"
  "has_render_callback (normalizeFrames s) = has_render_callback s"
  "render_calls (normalizeFrames s) = render_calls s"
  "timers (normalizeFrames s) = timers s"
  by (simp_all add: normalizeFrames_def normalizeTimeStamps_def Let_def)

lemma showCurrentFrame_fields:
  "event_identifier (snd (showCurrentFrame s)) = event_identifier s"
  "is_playing (snd (showCurrentFrame s)) = is_playing s"
  "loaded (snd (showCurrentFrame s)) = loaded s"
  "frames (snd (showCurrentFrame s)) = frames s"
  "current_frame (snd (showCurrentFrame s)) = current_frame s"
  "requests (snd (showCurrentFrame s)) = requests s"
  "timers (snd (showCurrentFrame s)) = timers s"
  by (simp_all add: showCurrentFrame_def Let_def status_def removePointCloud_def addToScene_def
      render_def split: option.splits)

lemma showCurrentFrame_returns:
  "frame_at (frames s) (current_frame s) = Some f \<Longrightarrow> fst (showCurrentFrame s) = Return ()"
  by (simp add: showCurrentFrame_def Let_def)

lemma nextFrame_fields:
  "event_identifier (snd (nextFrame s)) = event_identifier s"
  "is_playing (snd (nextFrame s)) = is_playing s"
  "loaded (snd (nextFrame s)) = loaded s"
  "frames (snd (nextFrame s)) = frames s"
  "requests (snd (nextFrame s)) = requests s"
  "timers (snd (nextFrame s)) = timers s"
  by (simp_all add: nextFrame_def showCurrentFrame_fields)

lemma previousFrame_fields:
  "event_identifier (snd (previousFrame s)) = event_identifier s"
  "is_playing (snd (previousFrame s)) = is_playing s"
  "loaded (snd (previousFrame s)) = loaded s"
  "frames (snd (previousFrame s)) = frames s"
  "requests (snd (previousFrame s)) = requests s"
  "timers (snd (previousFrame s)) = timers s"
  by (simp_all add: previousFrame_def showCurrentFrame_fields)

lemma nextFrame_index:
  "current_frame (snd (nextFrame s)) =
     (if current_frame s = IUndefined \<or> \<not> loaded s then current_frame s
      else next_index (current_frame s) (length (frames s)))"
  by (simp add: nextFrame_def showCurrentFrame_fields)

lemma previousFrame_index:
  "current_frame (snd (previousFrame s)) =
     (if current_frame s = IUndefined \<or> \<not> loaded s then current_frame s
      else previous_index (current_frame s) (length (frames s)))"
  by (simp add: previousFrame_def showCurrentFrame_fields)

lemma createNextFrameTimer_fields:
  "event_identifier (snd (createNextFrameTimer s)) = event_identifier s"
  "is_playing (snd (createNextFrameTimer s)) = is_playing s"
  "loaded (snd (createNextFrameTimer s)) = loaded s"
  "frames (snd (createNextFrameTimer s)) = frames s"
  "current_frame (snd (createNextFrameTimer s)) = current_frame s"
  "requests (snd (createNextFrameTimer s)) = requests s"
  by (simp_all add: createNextFrameTimer_def Let_def split: option.splits)

lemma play_fields:
  "event_identifier (snd (play s)) = event_identifier s"
  "loaded (snd (play s)) = loaded s"
  "frames (snd (play s)) = frames s"
  "current_frame (snd (play s)) = current_frame s"
  "requests (snd (play s)) = requests s"
  by (simp_all add: play_def pause_def createNextFrameTimer_def Let_def
      split: option.splits prod.splits completion.splits)

lemma play_is_playing:
  "is_playing (snd (play s)) \<Longrightarrow> is_playing s \<or> (loaded s \<and> 2 \<le> length (frames s))"
  by (auto simp: play_def pause_def Let_def split: if_splits)

lemma playNextFrameCallback_fields:
  "event_identifier (snd (playNextFrameCallback s)) = event_identifier s"
  "is_playing (snd (playNextFrameCallback s)) = is_playing s"
  "loaded (snd (playNextFrameCallback s)) = loaded s"
  "frames (snd (playNextFrameCallback s)) = frames s"
  "requests (snd (playNextFrameCallback s)) = requests s"
  "current_frame (snd (playNextFrameCallback s)) =
     (if is_playing s then current_frame (snd (nextFrame s)) else current_frame s)"
proof -
  have c: "snd (case nextFrame s of (Throw e, s1) \<Rightarrow> (Throw e, s1) | (Return u, s1) \<Rightarrow> createNextFrameTimer s1)
        = (case fst (nextFrame s) of Throw e \<Rightarrow> snd (nextFrame s) | Return u \<Rightarrow> snd (createNextFrameTimer (snd (nextFrame s))))"
    by (simp split: prod.splits completion.splits)
  show "event_identifier (snd (playNextFrameCallback s)) = event_identifier s"
    "is_playing (snd (playNextFrameCallback s)) = is_playing s"
    "loaded (snd (playNextFrameCallback s)) = loaded s"
    "frames (snd (playNextFrameCallback s)) = frames s"
    "requests (snd (playNextFrameCallback s)) = requests s"
    "current_frame (snd (playNextFrameCallback s)) =
     (if is_playing s then current_frame (snd (nextFrame s)) else current_frame s)"
    unfolding playNextFrameCallback_def
    by (simp_all add: c createNextFrameTimer_fields nextFrame_fields
        split: completion.splits)
qed

lemma reset_fields:
  "event_identifier (reset s) = event_identifier s + 1"
  "is_playing (reset s) = False"
  "loaded (reset s) = False"
  "frames (reset s) = []"
  "current_frame (reset s) = IUndefined"
  "requests (reset s) = requests s"
  "status_log (reset s) = status_log s"
  "timers (reset s) = timers s"
  by (simp_all add: reset_def pause_def removePointCloud_def)

lemma load_loop_fields:
  "event_identifier (snd (load_loop name n ty index fs s)) = event_identifier s"
  "is_playing (snd (load_loop name n ty index fs s)) = is_playing s"
  "loaded (snd (load_loop name n ty index fs s)) = loaded s"
  "frames (snd (load_loop name n ty index fs s)) = frames s"
  "current_frame (snd (load_loop name n ty index fs s)) = current_frame s"
  "timers (snd (load_loop name n ty index fs s)) = timers s"
  by (induction name n ty index fs s rule: load_loop.induct;
      simp add: Let_def status_def loadPointCloud_def split: option.splits)+

lemma loadPointClouds_fields:
  "event_identifier (snd (loadPointClouds name fs ty s)) = event_identifier s + 1"
  "is_playing (snd (loadPointClouds name fs ty s)) = False"
  "loaded (snd (loadPointClouds name fs ty s)) = False"
  "frames (snd (loadPointClouds name fs ty s)) = []"
  "current_frame (snd (loadPointClouds name fs ty s)) = IUndefined"
  by (simp_all add: loadPointClouds_def Let_def load_loop_fields reset_fields status_def)

lemma loadSinglePointCloud_fields:
  "event_identifier (loadSinglePointCloud p s) = event_identifier s + 1"
  "is_playing (loadSinglePointCloud p s) = False"
  "loaded (loadSinglePointCloud p s) = False"
  "frames (loadSinglePointCloud p s) = []"
  "current_frame (loadSinglePointCloud p s) = IUndefined"
  by (simp_all add: loadSinglePointCloud_def Let_def reset_fields loadPointCloud_def)

lemma pointCloudLoaded_stale:
  "event_identifier s \<noteq> meta_event_identifier m \<Longrightarrow> pointCloudLoaded pts m s = (Return (), s)"
  by (simp add: pointCloudLoaded_def)

lemma pointCloudLoaded_pending:
  "event_identifier s = meta_event_identifier m \<Longrightarrow> Suc (length (frames s)) \<noteq> num_frames m \<Longrightarrow>
   pointCloudLoaded pts m s =
     (Return (), status (''Loaded '' @ show_nat (Suc (length (frames s))) @ '' frames of ''
                           @ show_nat (num_frames m) @ ''.'')
                   (s\<lparr>frames := frames s @ [stored_frame pts m]\<rparr>))"
  by (simp add: pointCloudLoaded_def Let_def status_def stored_frame_def)

lemma nextFrame_start:
  "frames s \<noteq> [] \<Longrightarrow>
   nextFrame (s\<lparr>current_frame := Idx (- 1), loaded := True\<rparr>) =
     showCurrentFrame (s\<lparr>loaded := True, current_frame := Idx 0\<rparr>)"
  by (simp add: nextFrame_def js_rem_def)

lemma pointCloudLoaded_complete:
  "event_identifier s = meta_event_identifier m \<Longrightarrow> Suc (length (frames s)) = num_frames m \<Longrightarrow>
   pointCloudLoaded pts m s =
     showCurrentFrame
       ((status ''Ready.''
          (normalizeFrames
            (status (''Loaded '' @ show_nat (Suc (length (frames s))) @ '' frames of ''
                      @ show_nat (num_frames m) @ ''.'')
               (s\<lparr>frames := frames s @ [stored_frame pts m]\<rparr>))))
        \<lparr>loaded := True, current_frame := Idx 0\<rparr>)"
proof -
  assume a: "event_identifier s = meta_event_identifier m" "Suc (length (frames s)) = num_frames m"
  let ?s2 = "status (''Loaded '' @ show_nat (Suc (length (frames s))) @ '' frames of ''
                      @ show_nat (num_frames m) @ ''.'')
               (s\<lparr>frames := frames s @ [stored_frame pts m]\<rparr>)"
  have "length (frames (status ''Ready.'' (normalizeFrames ?s2))) = Suc (length (frames s))"
    by (simp add: status_def length_normalizeFrames)
  then have ne: "frames (status ''Ready.'' (normalizeFrames ?s2)) \<noteq> []"
    by (metis length_0_conv nat.distinct(1))
  have "pointCloudLoaded pts m s =
      nextFrame ((status ''Ready.'' (normalizeFrames ?s2))\<lparr>current_frame := Idx (- 1), loaded := True\<rparr>)"
    using a by (simp add: pointCloudLoaded_def Let_def status_def stored_frame_def)
  then show ?thesis
    by (simp only: nextFrame_start [OF ne])
qed

lemma pointCloudLoaded_fields:
  "event_identifier (snd (pointCloudLoaded pts m s)) = event_identifier s"
  "is_playing (snd (pointCloudLoaded pts m s)) = is_playing s"
  "requests (snd (pointCloudLoaded pts m s)) = requests s"
  "timers (snd (pointCloudLoaded pts m s)) = timers s"
proof -
  consider "event_identifier s \<noteq> meta_event_identifier m"
    | "event_identifier s = meta_event_identifier m" "Suc (length (frames s)) \<noteq> num_frames m"
    | "event_identifier s = meta_event_identifier m" "Suc (length (frames s)) = num_frames m"
    by blast
  then show "event_identifier (snd (pointCloudLoaded pts m s)) = event_identifier s"
    "is_playing (snd (pointCloudLoaded pts m s)) = is_playing s"
    "requests (snd (pointCloudLoaded pts m s)) = requests s"
    "timers (snd (pointCloudLoaded pts m s)) = timers s"
    by (cases; simp add: pointCloudLoaded_stale pointCloudLoaded_pending pointCloudLoaded_complete
        showCurrentFrame_fields normalizeFrames_fields status_def)+
qed

lemma pointCloudLoaded_state:
  "event_identifier s = meta_event_identifier m \<Longrightarrow>
   frames (snd (pointCloudLoaded pts m s)) =
     (if Suc (length (frames s)) = num_frames m
      then frames (normalizeFrames (s\<lparr>frames := frames s @ [stored_frame pts m]\<rparr>))
      else frames s @ [stored_frame pts m]) \<and>
   loaded (snd (pointCloudLoaded pts m s)) =
     (if Suc (length (frames s)) = num_frames m then True else loaded s) \<and>
   current_frame (snd (pointCloudLoaded pts m s)) =
     (if Suc (length (frames s)) = num_frames m then Idx 0 else current_frame s)"
  by (simp add: pointCloudLoaded_pending pointCloudLoaded_complete showCurrentFrame_fields
      status_def normalizeFrames_def normalizeTimeStamps_def Let_def)

lemma length_pointCloudLoaded:
  "length (frames (snd (pointCloudLoaded pts m s))) =
     (if event_identifier s = meta_event_identifier m then Suc (length (frames s))
      else length (frames s))"
  by (simp add: pointCloudLoaded_stale pointCloudLoaded_state length_normalizeFrames)

section \<open>The state invariant\<close>

lemma next_index_range:
  "0 \<le> i \<Longrightarrow> i < int n \<Longrightarrow> next_index (Idx i) n = Idx ((i + 1) mod int n)"
  by (simp add: js_rem_def)

lemma previous_index_range:
  "0 \<le> i \<Longrightarrow> i < int n \<Longrightarrow> previous_index (Idx i) n = Idx ((i - 1) mod int n)"
proof -
  assume a: "0 \<le> i" "i < int n"
  then have "(int n + i - 1) mod int n = (i - 1) mod int n"
    by (metis add.commute add_diff_eq mod_add_self2)
  with a show ?thesis by (simp add: js_rem_def)
qed

lemma valid_index_mono: "valid_index c n \<Longrightarrow> n \<le> k \<Longrightarrow> valid_index c k"
  by (cases c) simp_all

lemma index_in_range_cases:
  assumes "index_in_range s"
  obtains "current_frame s = IUndefined"
  | i where "current_frame s = Idx i" "0 \<le> i" "i < int (length (frames s))"
  using assms by (cases "current_frame s") (simp_all add: index_in_range_def)

lemma index_in_range_Idx:
  "current_frame s = Idx i \<Longrightarrow> index_in_range s = (0 \<le> i \<and> i < int (length (frames s)))"
  by (simp add: index_in_range_def)

lemma state_invariant_pointCloudLoaded:
  "state_invariant s \<Longrightarrow> state_invariant (snd (pointCloudLoaded pts m s))"
proof (cases "event_identifier s = meta_event_identifier m")
  case False
  assume "state_invariant s"
  with False show ?thesis by (simp add: pointCloudLoaded_stale)
next
  case True
  assume inv: "state_invariant s"
  note st = pointCloudLoaded_state [OF True, of pts]
  have len: "length (frames (snd (pointCloudLoaded pts m s))) = Suc (length (frames s))"
    using True by (simp add: length_pointCloudLoaded)
  have "valid_index (current_frame s) (Suc (length (frames s)))"
    using inv valid_index_mono [of "current_frame s" "length (frames s)" "Suc (length (frames s))"]
    by (simp add: state_invariant_def index_in_range_def)
  then show ?thesis
    using inv st len
    by (auto simp: state_invariant_def index_in_range_def pointCloudLoaded_fields
        split: if_splits)
qed

lemma nextFrame_noop:
  "current_frame s = IUndefined \<or> \<not> loaded s \<Longrightarrow> nextFrame s = (Return (), s)"
  by (auto simp: nextFrame_def)

lemma previousFrame_noop:
  "current_frame s = IUndefined \<or> \<not> loaded s \<Longrightarrow> previousFrame s = (Return (), s)"
  by (auto simp: previousFrame_def)

lemma frame_at_valid:
  "0 \<le> i \<Longrightarrow> i < int (length fs) \<Longrightarrow> frame_at fs (Idx i) = Some (fs ! nat i)"
  by simp

lemma mod_index_bounds:
  "i < int n \<Longrightarrow> 0 \<le> i \<Longrightarrow> 0 \<le> j mod int n \<and> j mod int n < int n"
  by simp

lemma nextFrame_valid:
  assumes "loaded s" "current_frame s = Idx i" "0 \<le> i" "i < int (length (frames s))"
  shows "current_frame (snd (nextFrame s)) = Idx ((i + 1) mod int (length (frames s)))"
    and "fst (nextFrame s) = Return ()"
proof -
  let ?s1 = "s\<lparr>current_frame := Idx ((i + 1) mod int (length (frames s)))\<rparr>"
  have "0 < length (frames s)" using assms by auto
  then have nf: "nextFrame s = showCurrentFrame ?s1"
    using assms by (simp add: nextFrame_def js_rem_def)
  show "current_frame (snd (nextFrame s)) = Idx ((i + 1) mod int (length (frames s)))"
    by (simp add: nf showCurrentFrame_fields)
  have "frame_at (frames ?s1) (current_frame ?s1)
        = Some (frames s ! nat ((i + 1) mod int (length (frames s))))"
    using mod_index_bounds [OF assms(4) assms(3), of "i + 1"] by simp
  then show "fst (nextFrame s) = Return ()"
    unfolding nf by (rule showCurrentFrame_returns)
qed

lemma previousFrame_valid:
  assumes "loaded s" "current_frame s = Idx i" "0 \<le> i" "i < int (length (frames s))"
  shows "current_frame (snd (previousFrame s)) = Idx ((i - 1) mod int (length (frames s)))"
    and "fst (previousFrame s) = Return ()"
proof -
  let ?s1 = "s\<lparr>current_frame := Idx ((i - 1) mod int (length (frames s)))\<rparr>"
  have "previous_index (Idx i) (length (frames s)) = Idx ((i - 1) mod int (length (frames s)))"
    using assms by (simp only: previous_index_range)
  then have nf: "previousFrame s = showCurrentFrame ?s1"
    using assms by (simp add: previousFrame_def del: previous_index.simps)
  show "current_frame (snd (previousFrame s)) = Idx ((i - 1) mod int (length (frames s)))"
    by (simp add: nf showCurrentFrame_fields)
  have "frame_at (frames ?s1) (current_frame ?s1)
        = Some (frames s ! nat ((i - 1) mod int (length (frames s))))"
    using mod_index_bounds [OF assms(4) assms(3), of "i - 1"] by simp
  then show "fst (previousFrame s) = Return ()"
    unfolding nf by (rule showCurrentFrame_returns)
qed

lemma state_invariant_nextFrame: "state_invariant s \<Longrightarrow> state_invariant (snd (nextFrame s))"
proof -
  assume inv: "state_invariant s"
  then have "index_in_range s" by (simp add: state_invariant_def)
  then show ?thesis
  proof (cases rule: index_in_range_cases)
    case 1
    then show ?thesis using inv by (simp add: nextFrame_noop)
  next
    case (2 i)
    with inv have l: "loaded s" by (simp add: state_invariant_def)
    note nv = nextFrame_valid(1) [OF l 2]
    show ?thesis
      using inv l mod_index_bounds [OF 2(3) 2(2), of "i + 1"]
      by (simp add: state_invariant_def index_in_range_Idx [OF nv] nextFrame_fields nv)
  qed
qed

lemma state_invariant_previousFrame:
  "state_invariant s \<Longrightarrow> state_invariant (snd (previousFrame s))"
proof -
  assume inv: "state_invariant s"
  then have "index_in_range s" by (simp add: state_invariant_def)
  then show ?thesis
  proof (cases rule: index_in_range_cases)
    case 1
    then show ?thesis using inv by (simp add: previousFrame_noop)
  next
    case (2 i)
    with inv have l: "loaded s" by (simp add: state_invariant_def)
    note nv = previousFrame_valid(1) [OF l 2]
    show ?thesis
      using inv l mod_index_bounds [OF 2(3) 2(2), of "i - 1"]
      by (simp add: state_invariant_def index_in_range_Idx [OF nv] previousFrame_fields nv)
  qed
qed

lemma state_invariant_play: "state_invariant s \<Longrightarrow> state_invariant (snd (play s))"
proof -
  assume inv: "state_invariant s"
  have "index_in_range (snd (play s)) = index_in_range s"
    by (simp add: index_in_range_def play_fields)
  then show ?thesis
    using inv play_is_playing [of s]
    by (auto simp: state_invariant_def play_fields)
qed

lemma state_invariant_pause: "state_invariant s \<Longrightarrow> state_invariant (pause s)"
  by (simp add: state_invariant_def index_in_range_def pause_def)

lemma state_invariant_reset: "state_invariant (reset s)"
  by (simp add: state_invariant_def index_in_range_def reset_fields)

lemma state_invariant_loadPointClouds:
  "state_invariant (snd (loadPointClouds name fs ty s))"
  by (simp add: state_invariant_def index_in_range_def loadPointClouds_fields)

lemma state_invariant_loadSinglePointCloud: "state_invariant (loadSinglePointCloud p s)"
  by (simp add: state_invariant_def index_in_range_def loadSinglePointCloud_fields)

lemma state_invariant_timers: "state_invariant (s\<lparr>timers := ts\<rparr>) = state_invariant s"
  by (simp add: state_invariant_def index_in_range_def)

lemma state_invariant_playNextFrameCallback:
  "state_invariant s \<Longrightarrow> state_invariant (snd (playNextFrameCallback s))"
proof -
  assume inv: "state_invariant s"
  then have nx: "state_invariant (snd (nextFrame s))" by (rule state_invariant_nextFrame)
  have "index_in_range (snd (playNextFrameCallback s)) =
        (if is_playing s then index_in_range (snd (nextFrame s)) else index_in_range s)"
    by (simp add: index_in_range_def playNextFrameCallback_fields nextFrame_fields)
  moreover have "current_frame (snd (nextFrame s)) \<noteq> IUndefined \<longrightarrow> loaded s"
    using nx by (simp add: state_invariant_def nextFrame_fields)
  ultimately show ?thesis
    using inv nx
    by (simp add: state_invariant_def playNextFrameCallback_fields nextFrame_fields)
qed

lemma state_invariant_step: "state_invariant s \<Longrightarrow> state_invariant (step e s)"
  by (cases e)
    (simp_all add: state_invariant_loadPointClouds state_invariant_loadSinglePointCloud
      state_invariant_reset state_invariant_pointCloudLoaded state_invariant_nextFrame
      state_invariant_previousFrame state_invariant_play state_invariant_pause
      state_invariant_playNextFrameCallback state_invariant_timers)

lemma state_invariant_new_player: "state_invariant (new_player cb)"
  by (simp add: state_invariant_def index_in_range_def new_player_def)

lemma state_invariant_run: "state_invariant s \<Longrightarrow> state_invariant (run evs s)"
  by (induction evs arbitrary: s) (simp_all add: state_invariant_step)

lemma index_defined_nextFrame:
  "state_invariant s \<Longrightarrow> index_defined s \<Longrightarrow> index_defined (snd (nextFrame s))"
proof -
  assume inv: "state_invariant s" and d: "index_defined s"
  then have "index_in_range s" by (simp add: state_invariant_def)
  then show ?thesis
  proof (cases rule: index_in_range_cases)
    case 1
    then show ?thesis using d by (simp add: nextFrame_noop)
  next
    case (2 i)
    with inv have l: "loaded s" by (simp add: state_invariant_def)
    show ?thesis
      by (simp add: index_defined_def nextFrame_valid(1) [OF l 2])
  qed
qed

lemma index_defined_previousFrame:
  "state_invariant s \<Longrightarrow> index_defined s \<Longrightarrow> index_defined (snd (previousFrame s))"
proof -
  assume inv: "state_invariant s" and d: "index_defined s"
  then have "index_in_range s" by (simp add: state_invariant_def)
  then show ?thesis
  proof (cases rule: index_in_range_cases)
    case 1
    then show ?thesis using d by (simp add: previousFrame_noop)
  next
    case (2 i)
    with inv have l: "loaded s" by (simp add: state_invariant_def)
    show ?thesis
      by (simp add: index_defined_def previousFrame_valid(1) [OF l 2])
  qed
qed

lemma index_defined_timers: "index_defined (s\<lparr>timers := ts\<rparr>) = index_defined s"
  by (simp add: index_defined_def)

lemma index_defined_playNextFrameCallback:
  "state_invariant s \<Longrightarrow> index_defined s \<Longrightarrow> index_defined (snd (playNextFrameCallback s))"
proof -
  assume inv: "state_invariant s" and d: "index_defined s"
  then have "index_defined (snd (nextFrame s))" by (rule index_defined_nextFrame)
  with d show ?thesis
    by (simp add: index_defined_def playNextFrameCallback_fields nextFrame_fields)
qed

lemma index_defined_pointCloudLoaded:
  "index_defined s \<Longrightarrow> index_defined (snd (pointCloudLoaded pts m s))"
proof (cases "event_identifier s = meta_event_identifier m")
  case False
  assume "index_defined s"
  with False show ?thesis by (simp add: pointCloudLoaded_stale)
next
  case True
  assume "index_defined s"
  then show ?thesis
    using pointCloudLoaded_state [OF True, of pts]
    by (simp add: index_defined_def)
qed

lemma index_defined_step:
  "state_invariant s \<Longrightarrow> index_defined s \<Longrightarrow> index_defined (step e s)"
proof (cases e)
  case (TimerFired k)
  assume "state_invariant s" "index_defined s"
  then show ?thesis
    using TimerFired
      index_defined_playNextFrameCallback
        [of "s\<lparr>timers := take k (timers s) @ drop (Suc k) (timers s)\<rparr>"]
    by (simp add: state_invariant_timers index_defined_timers)
qed (simp_all add: index_defined_pointCloudLoaded index_defined_nextFrame
      index_defined_previousFrame,
    simp_all add: index_defined_def loadPointClouds_fields loadSinglePointCloud_fields
      reset_fields play_fields pause_def)

lemma reachable_invariants:
  "state_invariant (run evs (new_player cb)) \<and> index_defined (run evs (new_player cb))"
proof -
  have "state_invariant s \<and> index_defined s \<Longrightarrow>
        state_invariant (run evs s) \<and> index_defined (run evs s)" for s
    by (induction evs arbitrary: s) (simp_all add: state_invariant_step index_defined_step)
  moreover have "index_defined (new_player cb)"
    by (simp add: index_defined_def new_player_def)
  ultimately show ?thesis
    using state_invariant_new_player by blast
qed

lemma reachable_frame_at:
  "loaded (run evs (new_player cb)) \<Longrightarrow>
   \<exists>i. current_frame (run evs (new_player cb)) = Idx i \<and> 0 \<le> i \<and>
       i < int (length (frames (run evs (new_player cb))))"
proof -
  assume l: "loaded (run evs (new_player cb))"
  from reachable_invariants [of evs cb]
  have "index_in_range (run evs (new_player cb))" and "index_defined (run evs (new_player cb))"
    by (simp_all add: state_invariant_def)
  from this(1) show ?thesis
  proof (cases rule: index_in_range_cases)
    case 1
    with l \<open>index_defined (run evs (new_player cb))\<close> show ?thesis
      by (simp add: index_defined_def)
  next
    case (2 i)
    then show ?thesis by blast
  qed
qed

subsection \<open>The example run\<close>

lemma example_requests:
  "map snd (requests (snd (loadPointClouds ''s'' example_specs ''color'' (new_player False)))) =
     [example_meta 0 5 ''a.pcd'', example_meta 1 3 ''b.pcd'']"
  by (simp add: loadPointClouds_def example_specs_def example_meta_def new_player_def Let_def
      reset_def pause_def status_def removePointCloud_def loadPointCloud_def clouds_length_def)

lemma example_player_fields:
  "loaded example_player"
  "\<not> is_playing example_player"
  "event_identifier example_player = 1"
  "current_frame example_player = Idx 0"
  "timers example_player = []"
  "scene_cloud example_player = Some (Points 2)"
  "frames example_player =
     [\<lparr>timestamp = Num 0, path = Some ''b.pcd'', scene = Some ''s'', points = Points 2,
       duration = Num 2\<rparr>,
      \<lparr>timestamp = Num 2, path = Some ''a.pcd'', scene = Some ''s'', points = Points 1,
       duration = Num 1\<rparr>]"
  by (simp_all add: example_player_def example_trace_def loadPointClouds_def example_specs_def
      example_meta_def new_player_def Let_def
      reset_def pause_def status_def removePointCloud_def loadPointCloud_def clouds_length_def
      pointCloudLoaded_def normalizeFrames_def normalizeTimeStamps_def rebase_def
      set_last_duration_def compareByTimestamp_def nextFrame_def showCurrentFrame_def
      js_rem_def addToScene_def render_def)

text \<open>
  C9. Every operation of the Player keeps the state invariant: the current frame index
  is defined only when \<open>loaded\<close> holds and, when defined, lies in
  \<open>[0, frames.length)\<close>; and \<open>is_playing\<close> implies \<open>loaded\<close> and at least two
  frames. The invariant holds for a new Player.
\<close>

theorem operations_preserve_invariant:
  "state_invariant (new_player cb) \<and>
   (state_invariant s \<longrightarrow>
      state_invariant (snd (loadPointClouds name fs type_identifier s)) \<and>
      state_invariant (loadSinglePointCloud full_path s) \<and>
      state_invariant (reset s) \<and>
      state_invariant (snd (pointCloudLoaded pts m s)) \<and>
      state_invariant (snd (nextFrame s)) \<and>
      state_invariant (snd (previousFrame s)) \<and>
      state_invariant (snd (play s)) \<and>
      state_invariant (pause s) \<and>
      state_invariant (snd (playNextFrameCallback s)) \<and>
      state_invariant (step e s) \<and>
      state_invariant (run evs s))"
  by (simp add: state_invariant_new_player state_invariant_loadPointClouds
      state_invariant_loadSinglePointCloud state_invariant_reset
      state_invariant_pointCloudLoaded state_invariant_nextFrame
      state_invariant_previousFrame state_invariant_play state_invariant_pause
      state_invariant_playNextFrameCallback state_invariant_step state_invariant_run)

text \<open>The theorem at the Player that has loaded the two frames of the example.\<close>

theorem operations_preserve_invariant_witness:
  "state_invariant example_player \<and> state_invariant (snd (play example_player)) \<and>
   is_playing (snd (play example_player)) \<and>
   state_invariant (snd (nextFrame example_player)) \<and>
   current_frame (snd (nextFrame example_player)) = Idx 1"
proof -
  have inv: "state_invariant example_player"
    by (simp add: state_invariant_def index_in_range_def example_player_fields)
  have "is_playing (snd (play example_player))"
    by (simp add: play_def createNextFrameTimer_def example_player_fields)
  moreover have "current_frame (snd (nextFrame example_player)) = Idx 1"
    by (simp add: nextFrame_index example_player_fields js_rem_def)
  ultimately show ?thesis
    using inv operations_preserve_invariant
      [of False example_player "''s''" "[]" "''color''" "''a.pcd''" "Points 1"
          "example_meta 0 5 ''a.pcd''" Play "[]"]
    by simp
qed

section \<open>Playback\<close>

lemma play_starts:
  "loaded s \<Longrightarrow> 2 \<le> length (frames s) \<Longrightarrow> \<not> is_playing s \<Longrightarrow>
   frame_at (frames s) (current_frame s) = Some f \<Longrightarrow>
   play s = (Return True,
             s\<lparr>is_playing := True, timers := timers s @ [js_mul (Num 1000) (duration f)]\<rparr>)"
  by (simp add: play_def createNextFrameTimer_def Let_def)

text \<open>
  C4. \<open>play()\<close> returns false and changes nothing when there are fewer than two
  frames or the scene is not loaded. When the Player is playing (loaded, at least two
  frames), \<open>play()\<close> does what \<open>pause()\<close> does and returns false. In every state the
  Player can reach, when it is loaded with at least two frames and not playing,
  \<open>play()\<close> sets \<open>is_playing\<close>, arms one timer and returns true.
\<close>

theorem play_toggles:
  "(length (frames s) < 2 \<or> \<not> loaded s \<longrightarrow> play s = (Return False, s)) \<and>
   (2 \<le> length (frames s) \<and> loaded s \<and> is_playing s \<longrightarrow> play s = (Return False, pause s)) \<and>
   (s = run evs (new_player cb) \<and> 2 \<le> length (frames s) \<and> loaded s \<and> \<not> is_playing s \<longrightarrow>
      (\<exists>delay. play s = (Return True, s\<lparr>is_playing := True, timers := timers s @ [delay]\<rparr>)))"
proof (intro conjI impI)
  assume "length (frames s) < 2 \<or> \<not> loaded s"
  then show "play s = (Return False, s)"
    by (auto simp: play_def)
next
  assume "2 \<le> length (frames s) \<and> loaded s \<and> is_playing s"
  then show "play s = (Return False, pause s)"
    by (simp add: play_def pause_def Let_def)
next
  assume a: "s = run evs (new_player cb) \<and> 2 \<le> length (frames s) \<and> loaded s \<and> \<not> is_playing s"
  then have s: "s = run evs (new_player cb)" and l: "loaded s" by blast+
  have "\<exists>i. current_frame s = Idx i \<and> 0 \<le> i \<and> i < int (length (frames s))"
    unfolding s by (rule reachable_frame_at) (use l s in blast)
  then obtain i where i: "current_frame s = Idx i" "0 \<le> i" "i < int (length (frames s))"
    by blast
  then have f: "frame_at (frames s) (current_frame s) = Some (frames s ! nat i)"
    by simp
  from a have "2 \<le> length (frames s)" and "\<not> is_playing s" by blast+
  with l have "play s = (Return True, s\<lparr>is_playing := True,
      timers := timers s @ [js_mul (Num 1000) (duration (frames s ! nat i))]\<rparr>)"
    using f by (rule play_starts)
  then show "\<exists>delay. play s = (Return True, s\<lparr>is_playing := True, timers := timers s @ [delay]\<rparr>)"
    by blast
qed

text \<open>
  The theorem at a new Player (nothing loaded), at the example Player (loaded, two
  frames, paused) and at the example Player while it plays.
\<close>

theorem play_toggles_witness:
  "play (new_player False) = (Return False, new_player False) \<and>
   example_player = run example_trace (new_player False) \<and>
   2 \<le> length (frames example_player) \<and> loaded example_player \<and>
   \<not> is_playing example_player \<and>
   play example_player =
     (Return True, example_player\<lparr>is_playing := True, timers := [Num 2000]\<rparr>) \<and>
   is_playing (snd (play example_player)) \<and>
   play (snd (play example_player)) = (Return False, pause (snd (play example_player)))"
proof -
  have a: "play (new_player False) = (Return False, new_player False)"
    using play_toggles [of "new_player False" "[]" False]
    by (simp add: new_player_def)
  have b: "play example_player =
     (Return True, example_player\<lparr>is_playing := True, timers := [Num 2000]\<rparr>)"
    using play_toggles [of example_player example_trace False]
    by (simp add: example_player_fields play_def createNextFrameTimer_def)
  have c: "play (snd (play example_player)) = (Return False, pause (snd (play example_player)))"
    using play_toggles [of "snd (play example_player)" "[]" False]
    by (simp add: b example_player_fields)
  have d: "example_player = run example_trace (new_player False)"
    by (simp only: example_player_def)
  have e: "2 \<le> length (frames example_player)" "is_playing (snd (play example_player))"
    by (simp_all add: b example_player_fields)
  show ?thesis
    using a b c d e example_player_fields(1,2) by blast
qed

section \<open>Stepping through the frames\<close>

lemma nextFrame_iterate:
  assumes "loaded s" "current_frame s = Idx i" "0 \<le> i" "i < int (length (frames s))"
  shows "loaded (((\<lambda>s. snd (nextFrame s)) ^^ k) s) \<and>
         frames (((\<lambda>s. snd (nextFrame s)) ^^ k) s) = frames s \<and>
         current_frame (((\<lambda>s. snd (nextFrame s)) ^^ k) s) =
           Idx ((i + int k) mod int (length (frames s)))"
proof (induction k)
  case 0
  then show ?case using assms by simp
next
  case (Suc k)
  let ?t = "((\<lambda>s. snd (nextFrame s)) ^^ k) s"
  let ?j = "(i + int k) mod int (length (frames s))"
  from Suc have l: "loaded ?t" and f: "frames ?t = frames s" and c: "current_frame ?t = Idx ?j"
    by simp_all
  have b: "0 \<le> ?j" "?j < int (length (frames ?t))"
    using mod_index_bounds [OF assms(4) assms(3), of "i + int k"] by (simp_all add: f)
  have "current_frame (snd (nextFrame ?t)) = Idx ((?j + 1) mod int (length (frames ?t)))"
    using l c b by (rule nextFrame_valid(1))
  also have "(?j + 1) mod int (length (frames ?t)) = (i + int (Suc k)) mod int (length (frames s))"
  proof -
    have "(?j + 1) mod int (length (frames s)) = (i + int k + 1) mod int (length (frames s))"
      by (rule mod_add_left_eq)
    also have "i + int k + 1 = i + int (Suc k)" by simp
    finally show ?thesis by (simp only: f)
  qed
  finally show ?case
    by (simp add: nextFrame_fields l f)
qed

text \<open>
  C8. A loaded Player that can be reached has a current index \<open>i\<close> in
  \<open>[0, N)\<close>, \<open>N\<close> the number of frames. On a loaded Player with such an index,
  \<open>nextFrame\<close> moves the index to \<open>(i + 1) mod N\<close> and \<open>previousFrame\<close> to
  \<open>(i - 1) mod N\<close>; \<open>nextFrame\<close> then \<open>previousFrame\<close> leaves the index as it was,
  \<open>N\<close> calls of \<open>nextFrame\<close> bring it back to \<open>i\<close> (to 0 from 0), and
  \<open>previousFrame\<close> from index 0 gives \<open>N - 1\<close>.
\<close>

theorem frame_navigation_wraps:
  "(loaded (run evs (new_player cb)) \<longrightarrow>
      (\<exists>k. current_frame (run evs (new_player cb)) = Idx k \<and> 0 \<le> k \<and>
           k < int (length (frames (run evs (new_player cb)))))) \<and>
   (loaded s \<and> current_frame s = Idx i \<and> 0 \<le> i \<and> i < int (length (frames s)) \<longrightarrow>
      fst (nextFrame s) = Return () \<and> fst (previousFrame s) = Return () \<and>
      current_frame (snd (nextFrame s)) = Idx ((i + 1) mod int (length (frames s))) \<and>
      current_frame (snd (previousFrame s)) = Idx ((i - 1) mod int (length (frames s))) \<and>
      current_frame (snd (previousFrame (snd (nextFrame s)))) = Idx i \<and>
      current_frame (((\<lambda>s. snd (nextFrame s)) ^^ length (frames s)) s) = Idx i \<and>
      (i = 0 \<longrightarrow> current_frame (snd (previousFrame s)) = Idx (int (length (frames s)) - 1)))"
proof (intro conjI impI)
  assume "loaded (run evs (new_player cb))"
  then show "\<exists>k. current_frame (run evs (new_player cb)) = Idx k \<and> 0 \<le> k \<and>
           k < int (length (frames (run evs (new_player cb))))"
    by (rule reachable_frame_at)
next
  assume a: "loaded s \<and> current_frame s = Idx i \<and> 0 \<le> i \<and> i < int (length (frames s))"
  then have l: "loaded s" and c: "current_frame s = Idx i" and i0: "0 \<le> i"
    and iN: "i < int (length (frames s))"
    by blast+
  let ?N = "int (length (frames s))"
  show "fst (nextFrame s) = Return ()" using l c i0 iN by (rule nextFrame_valid(2))
  show "fst (previousFrame s) = Return ()" using l c i0 iN by (rule previousFrame_valid(2))
  show nx: "current_frame (snd (nextFrame s)) = Idx ((i + 1) mod ?N)"
    using l c i0 iN by (rule nextFrame_valid(1))
  show pv: "current_frame (snd (previousFrame s)) = Idx ((i - 1) mod ?N)"
    using l c i0 iN by (rule previousFrame_valid(1))
  have b: "0 \<le> (i + 1) mod ?N" "(i + 1) mod ?N < int (length (frames (snd (nextFrame s))))"
    using mod_index_bounds [OF iN i0, of "i + 1"] by (simp_all add: nextFrame_fields)
  have "loaded (snd (nextFrame s))" using l by (simp add: nextFrame_fields)
  from previousFrame_valid(1) [OF this nx b]
  have "current_frame (snd (previousFrame (snd (nextFrame s)))) = Idx (((i + 1) mod ?N - 1) mod ?N)"
    by (simp add: nextFrame_fields)
  also have "((i + 1) mod ?N - 1) mod ?N = i mod ?N"
    by (simp add: mod_diff_left_eq)
  also have "i mod ?N = i" using i0 iN by simp
  finally show "current_frame (snd (previousFrame (snd (nextFrame s)))) = Idx i" .
  have "current_frame (((\<lambda>s. snd (nextFrame s)) ^^ length (frames s)) s) = Idx ((i + ?N) mod ?N)"
    using nextFrame_iterate [OF l c i0 iN, of "length (frames s)"] by blast
  also have "(i + ?N) mod ?N = i" using i0 iN by simp
  finally show "current_frame (((\<lambda>s. snd (nextFrame s)) ^^ length (frames s)) s) = Idx i" .
  show "current_frame (snd (previousFrame s)) = Idx (?N - 1)" if "i = 0"
  proof -
    have "0 < ?N" using iN i0 by linarith
    then have "(- 1) mod ?N = ?N - 1"
      by (rule zmod_minus1)
    with pv that show ?thesis by simp
  qed
qed

text \<open>The theorem at the example Player: two frames, index 0.\<close>

theorem frame_navigation_wraps_witness:
  "loaded example_player \<and> current_frame example_player = Idx 0 \<and>
   length (frames example_player) = 2 \<and>
   current_frame (snd (nextFrame example_player)) = Idx 1 \<and>
   current_frame (snd (previousFrame example_player)) = Idx 1 \<and>
   current_frame (snd (previousFrame (snd (nextFrame example_player)))) = Idx 0 \<and>
   current_frame (snd (nextFrame (snd (nextFrame example_player)))) = Idx 0"
  using frame_navigation_wraps [of example_trace False example_player 0]
  by (simp add: example_player_fields numeral_2_eq_2)

section \<open>Loading\<close>

text \<open>
  C7. \<open>loadPointClouds\<close> with an empty list of frames reports "Loading point clouds."
  and then "No frames in scene.", issues no load request and leaves the Player not loaded
  and without frames.
\<close>

theorem load_empty_scene:
  "loadPointClouds name [] type_identifier s =
     (Return (), status ''No frames in scene.'' (reset (status ''Loading point clouds.'' s))) \<and>
   status_log (snd (loadPointClouds name [] type_identifier s)) =
     status_log s @ [''Loading point clouds.'', ''No frames in scene.''] \<and>
   requests (snd (loadPointClouds name [] type_identifier s)) = requests s \<and>
   \<not> loaded (snd (loadPointClouds name [] type_identifier s)) \<and>
   frames (snd (loadPointClouds name [] type_identifier s)) = []"
  by (simp add: loadPointClouds_def Let_def status_def reset_def pause_def removePointCloud_def)

text \<open>The theorem at a new Player.\<close>

theorem load_empty_scene_witness:
  "loadPointClouds ''s'' [] ''color'' (new_player False) =
     (Return (),
      status ''No frames in scene.'' (reset (status ''Loading point clouds.'' (new_player False)))) \<and>
   status_log (snd (loadPointClouds ''s'' [] ''color'' (new_player False))) =
     [''Loading point clouds.'', ''No frames in scene.''] \<and>
   requests (snd (loadPointClouds ''s'' [] ''color'' (new_player False))) = [] \<and>
   \<not> loaded (snd (loadPointClouds ''s'' [] ''color'' (new_player False)))"
proof -
  have a: "status_log (new_player False) = []" "requests (new_player False) = []"
    by (simp_all add: new_player_def)
  show ?thesis
    using load_empty_scene [of "''s''" "''color''" "new_player False", unfolded a append_Nil]
    by blast
qed

text \<open>
  C10. After \<open>loadSinglePointCloud\<close>, when the result of its one request comes back
  while the session is still the active one, the Player is loaded with exactly one
  frame, at index 0, with duration 1; the frame has been put into the scene and
  rendered once. The meta data of the request has no timestamp, path or scene, so the
  frame's path and scene are \<open>undefined\<close> and its normalized timestamp is \<open>NaN\<close>.
\<close>

theorem single_point_cloud_loaded:
  "requests (loadSinglePointCloud full_path s) =
     requests s @
       [(full_path,
         \<lparr>meta_event_identifier = event_identifier (loadSinglePointCloud full_path s),
          meta_scene = None, meta_index = None, num_frames = 1, meta_timestamp = Undefined,
          meta_path = None\<rparr>)] \<and>
   fst (pointCloudLoaded pts (snd (last (requests (loadSinglePointCloud full_path s))))
          (loadSinglePointCloud full_path s)) = Return () \<and>
   loaded (snd (pointCloudLoaded pts (snd (last (requests (loadSinglePointCloud full_path s))))
                  (loadSinglePointCloud full_path s))) \<and>
   frames (snd (pointCloudLoaded pts (snd (last (requests (loadSinglePointCloud full_path s))))
                  (loadSinglePointCloud full_path s))) =
     [\<lparr>timestamp = NaN, path = None, scene = None, points = pts, duration = Num 1\<rparr>] \<and>
   current_frame (snd (pointCloudLoaded pts (snd (last (requests (loadSinglePointCloud full_path s))))
                  (loadSinglePointCloud full_path s))) = Idx 0 \<and>
   scene_cloud (snd (pointCloudLoaded pts (snd (last (requests (loadSinglePointCloud full_path s))))
                  (loadSinglePointCloud full_path s))) = Some pts \<and>
   rendered (snd (pointCloudLoaded pts (snd (last (requests (loadSinglePointCloud full_path s))))
                  (loadSinglePointCloud full_path s))) = rendered s @ [Some pts] \<and>
   render_calls (snd (pointCloudLoaded pts (snd (last (requests (loadSinglePointCloud full_path s))))
                  (loadSinglePointCloud full_path s))) =
     render_calls s @ (if has_render_callback s then [(Idx 0, NaN, None, None)] else [])"
  by (simp add: loadSinglePointCloud_def Let_def reset_def pause_def removePointCloud_def
      loadPointCloud_def pointCloudLoaded_def status_def normalizeFrames_def
      normalizeTimeStamps_def rebase_def set_last_duration_def nextFrame_def js_rem_def
      showCurrentFrame_def addToScene_def render_def)

text \<open>The theorem at a new Player and the path of the single-cloud page.\<close>

theorem single_point_cloud_loaded_witness:
  "frames (snd (pointCloudLoaded (Points 1)
       (snd (last (requests (loadSinglePointCloud ''pointclouds/wiesenhagen/image.pcd''
                               (new_player False)))))
       (loadSinglePointCloud ''pointclouds/wiesenhagen/image.pcd'' (new_player False)))) =
     [\<lparr>timestamp = NaN, path = None, scene = None, points = Points 1, duration = Num 1\<rparr>] \<and>
   loaded (snd (pointCloudLoaded (Points 1)
       (snd (last (requests (loadSinglePointCloud ''pointclouds/wiesenhagen/image.pcd''
                               (new_player False)))))
       (loadSinglePointCloud ''pointclouds/wiesenhagen/image.pcd'' (new_player False)))) \<and>
   rendered (snd (pointCloudLoaded (Points 1)
       (snd (last (requests (loadSinglePointCloud ''pointclouds/wiesenhagen/image.pcd''
                               (new_player False)))))
       (loadSinglePointCloud ''pointclouds/wiesenhagen/image.pcd'' (new_player False)))) =
     [Some (Points 1)] \<and>
   render_calls (snd (pointCloudLoaded (Points 1)
       (snd (last (requests (loadSinglePointCloud ''pointclouds/wiesenhagen/image.pcd''
                               (new_player False)))))
       (loadSinglePointCloud ''pointclouds/wiesenhagen/image.pcd'' (new_player False)))) = []"
proof -
  have a: "rendered (new_player False) = []" "render_calls (new_player False) = []"
    "has_render_callback (new_player False) = False"
    by (simp_all add: new_player_def)
  show ?thesis
    using single_point_cloud_loaded
      [of "''pointclouds/wiesenhagen/image.pcd''" "new_player False" "Points 1",
       unfolded a if_False append_Nil]
    by blast
qed

lemma clouds_length_never_zero: "\<not> loose_eq_zero (clouds_length c)"
  by (simp add: clouds_length_def split: option.splits)

text \<open>
  C6. The test \<open>0 == clouds.length\<close> is false for every mapping from type names to
  clouds, the empty one too. In a scene whose second frame has no clouds,
  \<open>loadPointClouds\<close> requests the first frame and then raises a TypeError at
  \<open>cloud["path"]\<close>; "No clouds in frame." is not reported.
\<close>

theorem load_frame_without_clouds:
  "\<not> loose_eq_zero (clouds_length c) \<and>
   fst (loadPointClouds ''s'' [empty_clouds_first, empty_clouds_second] ''color''
          (new_player False)) = Throw TypeError \<and>
   status_log (snd (loadPointClouds ''s'' [empty_clouds_first, empty_clouds_second] ''color''
                      (new_player False))) =
     [''Loading point clouds.'', ''Loading point clouds...''] \<and>
   map fst (requests (snd (loadPointClouds ''s'' [empty_clouds_first, empty_clouds_second]
                             ''color'' (new_player False)))) = [''pointclouds/a.pcd''] \<and>
   \<not> loaded (snd (loadPointClouds ''s'' [empty_clouds_first, empty_clouds_second] ''color''
                      (new_player False)))"
  by (simp add: clouds_length_never_zero loadPointClouds_def Let_def status_def reset_def
      pause_def removePointCloud_def new_player_def loadPointCloud_def
      empty_clouds_first_def empty_clouds_second_def)

section \<open>Pause and the pending timers\<close>

lemma pause_unplayed: "\<not> is_playing s \<Longrightarrow> pause s = s"
  by (simp add: pause_def)

lemma play_twice:
  assumes "loaded s" "2 \<le> length (frames s)" "\<not> is_playing s"
    "frame_at (frames s) (current_frame s) = Some f"
  shows "play (snd (play s)) =
           (Return False, s\<lparr>timers := timers s @ [js_mul (Num 1000) (duration f)]\<rparr>)"
proof -
  let ?d = "js_mul (Num 1000) (duration f)"
  have p1: "play s = (Return True, s\<lparr>is_playing := True, timers := timers s @ [?d]\<rparr>)"
    using assms by (rule play_starts)
  have "play (s\<lparr>is_playing := True, timers := timers s @ [?d]\<rparr>) =
        (Return False, (s\<lparr>is_playing := False\<rparr>)\<lparr>timers := timers s @ [?d]\<rparr>)"
    using assms(1,2) by (simp add: play_def pause_def Let_def)
  moreover have "s\<lparr>is_playing := False\<rparr> = s"
    using assms(3) pause_unplayed [of s] by (simp add: pause_def)
  ultimately show ?thesis
    by (simp add: p1)
qed

text \<open>
  C3, against the claim. The example Player is loaded with two frames. After
  \<open>play()\<close> twice it is paused, and the timer of the first \<open>play()\<close> is still
  pending; \<open>pause()\<close> on the playing Player leaves that timer pending as well; and a
  third \<open>play()\<close> arms a second timer beside it.
\<close>

theorem pause_cancels_timer_counterexample:
  "loaded example_player \<and> 2 \<le> length (frames example_player) \<and>
   timers example_player = [] \<and>
   timers (pause (snd (play example_player))) = [Num 2000] \<and>
   \<not> is_playing (snd (play (snd (play example_player)))) \<and>
   timers (snd (play (snd (play example_player)))) = [Num 2000] \<and>
   timers (snd (play (snd (play (snd (play example_player)))))) = [Num 2000, Num 2000]"
  by (simp add: example_player_fields play_def pause_def createNextFrameTimer_def)

text \<open>
  C3, amended. \<open>pause()\<close> clears \<open>is_playing\<close> and nothing else: the pending timers
  stay pending. A timer that fires while the Player is paused is gone and changes
  nothing else: no frame is shown and no timer is armed. After \<open>play()\<close> twice in
  succession (loaded, at least two frames, not playing) the Player is paused again and
  the timer armed by the first \<open>play()\<close> is still pending, in every state the Player
  can reach and wherever it has a current frame.
\<close>

theorem pause_leaves_timers:
  "pause s = s\<lparr>is_playing := False\<rparr> \<and> timers (pause s) = timers s \<and>
   \<not> is_playing (pause s) \<and> pause (pause s) = pause s \<and>
   (\<not> is_playing s \<longrightarrow> playNextFrameCallback s = (Return (), s)) \<and>
   (\<not> is_playing s \<and> k < length (timers s) \<longrightarrow>
      step (TimerFired k) s = s\<lparr>timers := take k (timers s) @ drop (Suc k) (timers s)\<rparr>) \<and>
   (loaded s \<and> 2 \<le> length (frames s) \<and> \<not> is_playing s \<and>
    frame_at (frames s) (current_frame s) = Some f \<longrightarrow>
      play (snd (play s)) =
        (Return False, s\<lparr>timers := timers s @ [js_mul (Num 1000) (duration f)]\<rparr>)) \<and>
   (s = run evs (new_player cb) \<and> loaded s \<and> 2 \<le> length (frames s) \<and> \<not> is_playing s \<longrightarrow>
      (\<exists>delay. play (snd (play s)) = (Return False, s\<lparr>timers := timers s @ [delay]\<rparr>)))"
proof (intro conjI impI)
  assume "loaded s \<and> 2 \<le> length (frames s) \<and> \<not> is_playing s \<and>
    frame_at (frames s) (current_frame s) = Some f"
  then have "loaded s" "2 \<le> length (frames s)" "\<not> is_playing s"
    "frame_at (frames s) (current_frame s) = Some f"
    by blast+
  then show "play (snd (play s)) =
        (Return False, s\<lparr>timers := timers s @ [js_mul (Num 1000) (duration f)]\<rparr>)"
    by (rule play_twice)
next
  assume a: "s = run evs (new_player cb) \<and> loaded s \<and> 2 \<le> length (frames s) \<and> \<not> is_playing s"
  then have s: "s = run evs (new_player cb)" and l: "loaded s"
    and n: "2 \<le> length (frames s)" and p: "\<not> is_playing s"
    by blast+
  have "\<exists>i. current_frame s = Idx i \<and> 0 \<le> i \<and> i < int (length (frames s))"
    unfolding s by (rule reachable_frame_at) (use l s in blast)
  then obtain i where "current_frame s = Idx i" "0 \<le> i" "i < int (length (frames s))"
    by blast
  then have f: "frame_at (frames s) (current_frame s) = Some (frames s ! nat i)"
    by simp
  from play_twice [OF l n p f]
  show "\<exists>delay. play (snd (play s)) = (Return False, s\<lparr>timers := timers s @ [delay]\<rparr>)"
    by blast
qed (simp_all add: pause_def playNextFrameCallback_def)

text \<open>
  The amended statement at the example Player, and at the example Player after
  \<open>play()\<close> twice, when the pending timer fires.
\<close>

theorem pause_leaves_timers_witness:
  "\<not> is_playing example_player \<and>
   playNextFrameCallback example_player = (Return (), example_player) \<and>
   example_player = run example_trace (new_player False) \<and>
   loaded example_player \<and> 2 \<le> length (frames example_player) \<and>
   frame_at (frames example_player) (current_frame example_player) =
     Some (frames example_player ! 0) \<and>
   play (snd (play example_player)) = (Return False, example_player\<lparr>timers := [Num 2000]\<rparr>) \<and>
   step (TimerFired 0) (example_player\<lparr>timers := [Num 2000]\<rparr>) = example_player"
proof -
  have a: "play (snd (play example_player)) =
      (Return False, example_player\<lparr>timers := [Num 2000]\<rparr>)"
    using pause_leaves_timers [of example_player 0 "frames example_player ! 0" example_trace False]
    by (simp add: example_player_fields)
  have "step (TimerFired 0) (example_player\<lparr>timers := [Num 2000]\<rparr>) =
      example_player\<lparr>timers := []\<rparr>"
    using pause_leaves_timers [of "example_player\<lparr>timers := [Num 2000]\<rparr>" 0]
    by (simp add: example_player_fields)
  moreover have "example_player\<lparr>timers := []\<rparr> = example_player"
    using example_player_fields(5) by (metis player.surjective player.update_convs(12))
  ultimately have b: "step (TimerFired 0) (example_player\<lparr>timers := [Num 2000]\<rparr>) =
      example_player"
    by simp
  have c: "playNextFrameCallback example_player = (Return (), example_player)"
    using pause_leaves_timers [of example_player]
    by (simp add: example_player_fields)
  have d: "example_player = run example_trace (new_player False)"
    by (simp only: example_player_def)
  show ?thesis
    using a b c d by (simp add: example_player_fields)
qed

section \<open>Stale results\<close>

lemma points_normalizeFrames:
  "image_mset points (mset (frames (normalizeFrames s))) = image_mset points (mset (frames s))"
proof -
  have "map points (frames (normalizeFrames s)) =
        map points (array_sort compareByTimestamp (frames s))"
    by (simp add: normalizeFrames_def normalizeTimeStamps_def Let_def
        points_set_last_duration points_set_durations points_rebase)
  then have "mset (map points (frames (normalizeFrames s))) =
        mset (map points (array_sort compareByTimestamp (frames s)))"
    by (rule arg_cong)
  then have "image_mset points (mset (frames (normalizeFrames s))) =
        image_mset points (mset (array_sort compareByTimestamp (frames s)))"
    by simp
  then show ?thesis by (simp add: mset_array_sort)
qed

lemma points_pointCloudLoaded:
  "event_identifier s = meta_event_identifier m \<Longrightarrow>
   mset (map points (frames (snd (pointCloudLoaded pts m s)))) =
     add_mset pts (mset (map points (frames s)))"
  by (simp add: pointCloudLoaded_state points_normalizeFrames stored_frame_def)

lemma frames_tagged_mono: "frames_tagged s D \<Longrightarrow> D \<subseteq> E \<Longrightarrow> frames_tagged s E"
  unfolding frames_tagged_def by blast

lemma frames_tagged_same:
  "frames t = frames s \<Longrightarrow> event_identifier t = event_identifier s \<Longrightarrow>
   frames_tagged s D \<Longrightarrow> frames_tagged t D"
  by (simp add: frames_tagged_def)

lemma frames_tagged_empty: "frames s = [] \<Longrightarrow> frames_tagged s D"
  by (simp add: frames_tagged_def)

lemma frames_tagged_pointCloudLoaded:
  assumes "frames_tagged s D"
  shows "frames_tagged (snd (pointCloudLoaded pts m s)) (insert (pts, m) D)"
proof (cases "event_identifier s = meta_event_identifier m")
  case False
  then have "snd (pointCloudLoaded pts m s) = s" by (simp add: pointCloudLoaded_stale)
  with assms show ?thesis
    by (simp add: frames_tagged_mono [OF _ subset_insertI])
next
  case True
  have "set (map points (frames (snd (pointCloudLoaded pts m s)))) =
        set_mset (mset (map points (frames (snd (pointCloudLoaded pts m s)))))"
    by (simp only: set_mset_mset)
  also have "\<dots> = insert pts (set (map points (frames s)))"
    by (simp only: points_pointCloudLoaded [OF True] set_mset_add_mset_insert set_mset_mset)
  finally have st: "set (map points (frames (snd (pointCloudLoaded pts m s)))) =
        insert pts (set (map points (frames s)))" .
  show ?thesis
    unfolding frames_tagged_def st pointCloudLoaded_fields
    using assms True by (auto simp: frames_tagged_def)
qed

lemma frames_tagged_step:
  "frames_tagged s D \<Longrightarrow> frames_tagged (step e s) (D \<union> set (deliveries [e]))"
proof (cases e)
  case (PointCloudLoaded pts m)
  assume "frames_tagged s D"
  then show ?thesis
    using PointCloudLoaded frames_tagged_pointCloudLoaded [of s D pts m] by simp
next
  case (TimerFired k)
  assume "frames_tagged s D"
  then show ?thesis
    using TimerFired
    by (auto simp: playNextFrameCallback_fields intro: frames_tagged_same [of _ s])
qed (simp_all add: frames_tagged_empty loadPointClouds_fields loadSinglePointCloud_fields
      reset_fields,
    (erule frames_tagged_same [rotated 2];
     simp add: nextFrame_fields previousFrame_fields play_fields pause_def)+)

lemma deliveries_Cons: "set (deliveries (e # es)) = set (deliveries [e]) \<union> set (deliveries es)"
  by (cases e) simp_all

lemma frames_tagged_run:
  "frames_tagged s D \<Longrightarrow> frames_tagged (run evs s) (D \<union> set (deliveries evs))"
proof (induction evs arbitrary: s D)
  case Nil
  then show ?case by simp
next
  case (Cons e es)
  from Cons.prems have "frames_tagged (step e s) (D \<union> set (deliveries [e]))"
    by (rule frames_tagged_step)
  then have "frames_tagged (run es (step e s)) (D \<union> set (deliveries [e]) \<union> set (deliveries es))"
    by (rule Cons.IH)
  then show ?case
    by (simp add: deliveries_Cons [of e es] Un_assoc)
qed

lemma overlap_player_fields:
  "event_identifier (run overlap_trace (new_player False)) = 2"
  "loaded (run overlap_trace (new_player False))"
  "frames (run overlap_trace (new_player False)) =
     [\<lparr>timestamp = Num 0, path = Some ''c.pcd'', scene = Some ''t'', points = Points 3,
       duration = Num 1\<rparr>]"
  by (simp_all add: overlap_trace_def overlap_specs_def loadPointClouds_def example_specs_def
      example_meta_def new_player_def Let_def
      reset_def pause_def status_def removePointCloud_def loadPointCloud_def clouds_length_def
      pointCloudLoaded_def normalizeFrames_def normalizeTimeStamps_def rebase_def
      set_last_duration_def compareByTimestamp_def nextFrame_def showCurrentFrame_def
      js_rem_def addToScene_def render_def)

text \<open>
  C1. A load result whose \<open>meta.event_identifier\<close> differs from the Player's
  \<open>event_identifier\<close> is dropped: \<open>pointCloudLoaded\<close> returns and the state is the
  same, status log included. Hence, after any run of commands, load results and timer
  callbacks on a new Player, every frame in \<open>frames\<close> holds points that were
  delivered with the event identifier the Player has now; points delivered only under
  an older identifier are not in the list.
\<close>

theorem stale_results_discarded:
  "(meta_event_identifier m \<noteq> event_identifier s \<longrightarrow>
      pointCloudLoaded pts m s = (Return (), s)) \<and>
   (\<forall>f \<in> set (frames (run evs (new_player cb))).
      \<exists>m'. (points f, m') \<in> set (deliveries evs) \<and>
           meta_event_identifier m' = event_identifier (run evs (new_player cb)))"
proof (intro conjI impI ballI)
  assume "meta_event_identifier m \<noteq> event_identifier s"
  then show "pointCloudLoaded pts m s = (Return (), s)"
    by (simp add: pointCloudLoaded_def)
next
  fix f assume f: "f \<in> set (frames (run evs (new_player cb)))"
  have "frames_tagged (new_player cb) {}"
    by (simp add: frames_tagged_empty new_player_def)
  then have "frames_tagged (run evs (new_player cb)) ({} \<union> set (deliveries evs))"
    by (rule frames_tagged_run)
  moreover have "points f \<in> set (map points (frames (run evs (new_player cb))))"
    using f by simp
  ultimately show "\<exists>m'. (points f, m') \<in> set (deliveries evs) \<and>
           meta_event_identifier m' = event_identifier (run evs (new_player cb))"
    unfolding frames_tagged_def by blast
qed

text \<open>
  The theorem at a run in which a second scene is requested while the first one still
  waits for its second frame: the late result of the first scene is dropped, and the
  frames are those of the second scene.
\<close>

theorem stale_results_discarded_witness:
  "meta_event_identifier (example_meta 1 3 ''b.pcd'') \<noteq>
     event_identifier (run overlap_trace (new_player False)) \<and>
   pointCloudLoaded (Points 2) (example_meta 1 3 ''b.pcd'') (run overlap_trace (new_player False)) =
     (Return (), run overlap_trace (new_player False)) \<and>
   map points (frames (run overlap_trace (new_player False))) = [Points 3] \<and>
   (\<exists>m'. (Points 3, m') \<in> set (deliveries overlap_trace) \<and> meta_event_identifier m' = 2)"
  using stale_results_discarded
    [of "example_meta 1 3 ''b.pcd''" "run overlap_trace (new_player False)" "Points 2"
        overlap_trace False]
  by (simp add: overlap_player_fields example_meta_def)

section \<open>A scene load that completes\<close>

lemma load_loop_issues:
  "list_all (\<lambda>spec. clouds spec ty \<noteq> None) fs \<Longrightarrow>
   fst (load_loop name n ty k fs s) = Return () \<and>
   (\<exists>rs. requests (snd (load_loop name n ty k fs s)) = requests s @ rs \<and>
         issued (event_identifier s) n fs rs)"
proof (induction fs arbitrary: k s)
  case Nil
  then show ?case by (simp add: issued_def)
next
  case (Cons frame rest)
  from Cons.prems obtain cloud where cl: "clouds frame ty = Some cloud"
    and rest: "list_all (\<lambda>spec. clouds spec ty \<noteq> None) rest"
    by auto
  define full where "full = ''pointclouds/'' @ cloud_path cloud"
  let ?m = "\<lparr>meta_event_identifier = event_identifier s, meta_scene = Some name,
             meta_index = Some k, num_frames = n, meta_timestamp = spec_timestamp frame,
             meta_path = Some (cloud_path cloud)\<rparr>"
  let ?s1 = "loadPointCloud full ?m (status ''Loading point clouds...'' s)"
  have unfold: "load_loop name n ty k (frame # rest) s = load_loop name n ty (k + 1) rest ?s1"
    by (simp add: cl clouds_length_never_zero Let_def full_def)
  have s1: "requests ?s1 = requests s @ [(full, ?m)]"
    "event_identifier ?s1 = event_identifier s"
    by (simp_all add: loadPointCloud_def status_def)
  from Cons.IH [OF rest, of "k + 1" ?s1]
  obtain rs where ret: "fst (load_loop name n ty (k + 1) rest ?s1) = Return ()"
    and rq: "requests (snd (load_loop name n ty (k + 1) rest ?s1)) = requests ?s1 @ rs"
    and iss: "issued (event_identifier ?s1) n rest rs"
    by blast
  from iss have "issued (event_identifier s) n rest rs"
    by (simp only: s1(2))
  then have "issued (event_identifier s) n (frame # rest) ((full, ?m) # rs)"
    by (simp add: issued_def)
  moreover have "requests (snd (load_loop name n ty k (frame # rest) s)) =
      requests s @ (full, ?m) # rs"
    by (simp only: unfold rq s1 append_assoc append_Cons append_Nil)
  ultimately show ?case
    using ret by (simp only: unfold) blast
qed

lemma loadPointClouds_issues:
  assumes "fs \<noteq> []" "list_all (\<lambda>spec. clouds spec ty \<noteq> None) fs"
  shows "fst (loadPointClouds name fs ty s) = Return ()"
    and "issued (event_identifier (snd (loadPointClouds name fs ty s))) (length fs) fs
           (drop (length (requests s)) (requests (snd (loadPointClouds name fs ty s))))"
proof -
  let ?s1 = "reset (status ''Loading point clouds.'' s)"
  have lp: "loadPointClouds name fs ty s = load_loop name (length fs) ty 0 fs ?s1"
    using assms(1) by (simp add: loadPointClouds_def Let_def)
  from load_loop_issues [OF assms(2), of name "length fs" 0 ?s1]
  obtain rs where ret: "fst (load_loop name (length fs) ty 0 fs ?s1) = Return ()"
    and rq: "requests (snd (load_loop name (length fs) ty 0 fs ?s1)) = requests ?s1 @ rs"
    and iss: "issued (event_identifier ?s1) (length fs) fs rs"
    by blast
  have r1: "requests ?s1 = requests s"
    by (simp add: reset_fields status_def)
  show "fst (loadPointClouds name fs ty s) = Return ()"
    by (simp only: lp ret)
  have "drop (length (requests s)) (requests (snd (loadPointClouds name fs ty s))) = rs"
    by (simp add: lp rq r1)
  moreover have "event_identifier (snd (loadPointClouds name fs ty s)) = event_identifier ?s1"
    by (simp add: lp load_loop_fields)
  ultimately show "issued (event_identifier (snd (loadPointClouds name fs ty s))) (length fs) fs
           (drop (length (requests s)) (requests (snd (loadPointClouds name fs ty s))))"
    using iss by simp
qed

lemma run_append: "run (xs @ ys) s = run ys (run xs s)"
  by (induction xs arbitrary: s) simp_all

lemma deliver_pending:
  "tagged (event_identifier s) n ds \<Longrightarrow> length (frames s) + length ds < n \<Longrightarrow>
   frames (run (deliver ds) s) = frames s @ stored_frames ds \<and>
   event_identifier (run (deliver ds) s) = event_identifier s"
proof (induction ds arbitrary: s)
  case Nil
  then show ?case by (simp add: deliver_def stored_frames_def)
next
  case (Cons d ds)
  obtain pts m where d: "d = (pts, m)" by (cases d)
  from Cons.prems d have m: "event_identifier s = meta_event_identifier m" "num_frames m = n"
    and rest: "tagged (event_identifier s) n ds"
    by (simp_all add: tagged_def)
  from Cons.prems have "Suc (length (frames s)) \<noteq> num_frames m"
    by (simp add: m)
  from pointCloudLoaded_pending [OF m(1) this, of pts]
  obtain t where t: "snd (pointCloudLoaded pts m s) = t"
    "frames t = frames s @ [stored_frame pts m]" "event_identifier t = event_identifier s"
    by (simp add: status_def)
  have "tagged (event_identifier t) n ds" using rest by (simp only: t(3))
  moreover have "length (frames t) + length ds < n"
    using Cons.prems by (simp add: t(2))
  ultimately have "frames (run (deliver ds) t) = frames t @ stored_frames ds \<and>
      event_identifier (run (deliver ds) t) = event_identifier t"
    by (rule Cons.IH)
  moreover have "run (deliver (d # ds)) s = run (deliver ds) t"
    by (simp add: deliver_def d t(1))
  ultimately show ?case
    by (simp add: t(2,3) stored_frames_def d)
qed

lemma showCurrentFrame_shows:
  "frame_at (frames s) (current_frame s) = Some f \<Longrightarrow>
   scene_cloud (snd (showCurrentFrame s)) = Some (points f) \<and>
   rendered (snd (showCurrentFrame s)) = rendered s @ [Some (points f)]"
  by (simp add: showCurrentFrame_def Let_def status_def removePointCloud_def addToScene_def
      render_def)

lemma frames_normalizeFrames_cong:
  "frames a = frames b \<Longrightarrow> frames (normalizeFrames a) = frames (normalizeFrames b)"
  by (simp add: normalizeFrames_def normalizeTimeStamps_def Let_def)

lemma pointCloudLoaded_last:
  fixes pts :: point_cloud
  assumes "event_identifier t = meta_event_identifier m" "Suc (length (frames t)) = num_frames m"
  defines "r \<equiv> snd (pointCloudLoaded pts m t)"
  shows "loaded r" "current_frame r = Idx 0" "event_identifier r = event_identifier t"
    "frames r = frames (normalizeFrames (t\<lparr>frames := frames t @ [stored_frame pts m]\<rparr>))"
    "scene_cloud r = Some (points (frames r ! 0))"
    "last (rendered r) = Some (points (frames r ! 0))"
proof -
  define z where "z = (status ''Ready.''
          (normalizeFrames
            (status (''Loaded '' @ show_nat (Suc (length (frames t))) @ '' frames of ''
                      @ show_nat (num_frames m) @ ''.'')
               (t\<lparr>frames := frames t @ [stored_frame pts m]\<rparr>))))
        \<lparr>loaded := True, current_frame := Idx 0\<rparr>"
  have r: "r = snd (showCurrentFrame z)"
    unfolding r_def z_def by (simp only: pointCloudLoaded_complete [OF assms(1,2)])
  have z: "loaded z" "current_frame z = Idx 0" "event_identifier z = event_identifier t"
    by (simp_all add: z_def status_def normalizeFrames_fields)
  have fz: "frames z = frames (normalizeFrames (t\<lparr>frames := frames t @ [stored_frame pts m]\<rparr>))"
    by (simp add: z_def status_def frames_normalizeFrames_cong)
  show "loaded r" "current_frame r = Idx 0" "event_identifier r = event_identifier t"
    by (simp_all add: r showCurrentFrame_fields z)
  show fr: "frames r = frames (normalizeFrames (t\<lparr>frames := frames t @ [stored_frame pts m]\<rparr>))"
    by (simp add: r showCurrentFrame_fields fz)
  have "length (frames z) = Suc (length (frames t))"
    by (simp add: fz length_normalizeFrames)
  then have "frame_at (frames z) (current_frame z) = Some (frames z ! 0)"
    by (simp add: z)
  from showCurrentFrame_shows [OF this]
  have "scene_cloud r = Some (points (frames z ! 0))"
    "rendered r = rendered z @ [Some (points (frames z ! 0))]"
    by (simp_all only: r)
  then show "scene_cloud r = Some (points (frames r ! 0))"
    "last (rendered r) = Some (points (frames r ! 0))"
    by (simp_all add: fr fz)
qed

lemma deliver_complete:
  assumes "tagged (event_identifier s) n ds" "length (frames s) + length ds = n" "ds \<noteq> []"
  defines "r \<equiv> run (deliver ds) s"
  shows "loaded r" "current_frame r = Idx 0" "event_identifier r = event_identifier s"
    "frames r = frames (normalizeFrames (s\<lparr>frames := frames s @ stored_frames ds\<rparr>))"
    "scene_cloud r = Some (points (frames r ! 0))"
    "last (rendered r) = Some (points (frames r ! 0))"
proof -
  obtain pts m where lst: "last ds = (pts, m)" by (cases "last ds")
  have ds: "ds = butlast ds @ [(pts, m)]"
    using assms(3) lst by (metis append_butlast_last_id)
  let ?t = "run (deliver (butlast ds)) s"
  have tg: "tagged (event_identifier s) n (butlast ds)"
    and m: "meta_event_identifier m = event_identifier s" "num_frames m = n"
    using assms(1) by (subst (asm) ds, simp add: tagged_def)+
  have "length (frames s) + length (butlast ds) < n"
    using assms(2,3) by (cases ds rule: rev_cases) auto
  from deliver_pending [OF tg this]
  have t: "frames ?t = frames s @ stored_frames (butlast ds)"
    "event_identifier ?t = event_identifier s"
    by simp_all
  have r: "r = snd (pointCloudLoaded pts m ?t)"
    unfolding r_def by (subst ds) (simp add: deliver_def run_append)
  have e: "event_identifier ?t = meta_event_identifier m"
    by (simp add: t m)
  have "length ds = Suc (length (butlast ds))"
    by (subst ds) simp
  then have "Suc (length (frames s) + length (butlast ds)) = n"
    using assms(2) by linarith
  then have l: "Suc (length (frames ?t)) = num_frames m"
    by (simp add: t m stored_frames_def del: length_butlast)
  note last = pointCloudLoaded_last [OF e l, of pts]
  have fr: "frames ?t @ [stored_frame pts m] = frames s @ stored_frames ds"
    by (subst (2) ds) (simp add: t stored_frames_def)
  show "loaded r" "current_frame r = Idx 0"
    by (simp_all only: r last)
  show "event_identifier r = event_identifier s"
    by (simp only: r last t)
  show "frames r = frames (normalizeFrames (s\<lparr>frames := frames s @ stored_frames ds\<rparr>))"
    unfolding r last(4)
    by (rule frames_normalizeFrames_cong) (simp add: fr)
  show "scene_cloud r = Some (points (frames r ! 0))"
    "last (rendered r) = Some (points (frames r ! 0))"
    by (simp_all only: r last)
qed

lemma array_sort_head_min:
  assumes "numeric fs" "fs \<noteq> []"
  shows "array_sort compareByTimestamp fs ! 0 \<in> set fs"
    and "\<forall>f\<in>set fs. \<not> js_lt (timestamp f) (timestamp (array_sort compareByTimestamp fs ! 0))"
proof -
  let ?k = "\<lambda>f. num_value (timestamp f)"
  let ?srt = "array_sort compareByTimestamp fs"
  have key: "?srt = sort_key ?k fs"
    using assms(1) by (rule array_sort_numeric)
  have "length ?srt = length fs" by (rule length_array_sort)
  with assms(2) obtain x xs where srt: "?srt = x # xs"
    by (cases ?srt) auto
  have st: "set ?srt = set fs" by (rule set_array_sort)
  have x: "x \<in> set fs"
    using st unfolding srt by auto
  then show "?srt ! 0 \<in> set fs"
    by (simp add: srt)
  have "sorted (map ?k ?srt)" by (simp add: key)
  then have mn: "\<forall>y\<in>set xs. ?k x \<le> ?k y"
    by (simp add: srt)
  show "\<forall>f\<in>set fs. \<not> js_lt (timestamp f) (timestamp (?srt ! 0))"
  proof
    fix f assume f: "f \<in> set fs"
    then have "f = x \<or> f \<in> set xs" using st unfolding srt by auto
    then have le: "?k x \<le> ?k f" using mn by auto
    from assms(1) x have "is_number (timestamp x)" by (rule numericD)
    then obtain b where b: "timestamp x = Num b" by (rule is_numberE)
    from assms(1) f have "is_number (timestamp f)" by (rule numericD)
    then obtain a where a: "timestamp f = Num a" by (rule is_numberE)
    show "\<not> js_lt (timestamp f) (timestamp (?srt ! 0))"
      using le by (simp add: srt a b)
  qed
qed

lemma normalized_head_points:
  "frames s \<noteq> [] \<Longrightarrow>
   points (frames (normalizeFrames s) ! 0) =
     points (array_sort compareByTimestamp (frames s) ! 0)"
proof -
  assume ne: "frames s \<noteq> []"
  let ?srt = "array_sort compareByTimestamp (frames s)"
  have mp: "map points (frames (normalizeFrames s)) = map points ?srt"
    by (simp add: normalizeFrames_def normalizeTimeStamps_def Let_def
        points_set_last_duration points_set_durations points_rebase)
  have l1: "0 < length (frames (normalizeFrames s))"
    using ne by (simp add: length_normalizeFrames)
  have l2: "0 < length ?srt"
    using ne by (simp add: length_array_sort)
  have "points (frames (normalizeFrames s) ! 0) = map points (frames (normalizeFrames s)) ! 0"
    using l1 by simp
  also have "\<dots> = map points ?srt ! 0" by (simp only: mp)
  also have "\<dots> = points (?srt ! 0)" using l2 by simp
  finally show ?thesis .
qed

lemma stored_frames_fields:
  "map points (stored_frames ds) = map fst ds"
  "map timestamp (stored_frames ds) = map (\<lambda>d. meta_timestamp (snd d)) ds"
  "length (stored_frames ds) = length ds"
  by (simp_all add: stored_frames_def stored_frame_def split_def)

lemma tagged_from_issued:
  assumes "issued eid n fs rs" "mset (map snd ds) = mset (map snd rs)"
  shows "tagged eid n ds" and "length ds = length fs"
    and "mset (map (\<lambda>d. meta_timestamp (snd d)) ds) = mset (map spec_timestamp fs)"
proof -
  have st: "set (map snd ds) = set (map snd rs)"
    using assms(2) by (metis set_mset_mset)
  have "\<forall>r\<in>set rs. meta_event_identifier (snd r) = eid \<and> num_frames (snd r) = n"
    using assms(1) by (simp add: issued_def list_all_iff)
  then have "\<forall>m\<in>set (map snd rs). meta_event_identifier m = eid \<and> num_frames m = n"
    by auto
  then have "\<forall>m\<in>set (map snd ds). meta_event_identifier m = eid \<and> num_frames m = n"
    by (simp only: st)
  then show "tagged eid n ds"
    by (simp add: tagged_def list_all_iff)
  have "length (map snd ds) = length (map snd rs)"
    using assms(2) by (metis size_mset)
  then show "length ds = length fs"
    using assms(1) by (simp add: issued_def)
  have "mset (map (\<lambda>d. meta_timestamp (snd d)) ds) = image_mset meta_timestamp (mset (map snd ds))"
    by (simp add: multiset.map_comp comp_def)
  also have "\<dots> = image_mset meta_timestamp (mset (map snd rs))"
    by (simp only: assms(2))
  also have "\<dots> = mset (map (\<lambda>r. meta_timestamp (snd r)) rs)"
    by (simp add: multiset.map_comp comp_def)
  also have "\<dots> = mset (map spec_timestamp fs)"
    using assms(1) by (simp add: issued_def)
  finally show "mset (map (\<lambda>d. meta_timestamp (snd d)) ds) = mset (map spec_timestamp fs)" .
qed

text \<open>
  C5. Take a scene with at least one frame, every frame with a cloud of the selected
  type, so that \<open>loadPointClouds\<close> issues its \<open>N\<close> requests. When the \<open>N\<close>
  results have come back, each once and in any order, the Player is loaded, has \<open>N\<close>
  frames (the points delivered), is at index 0, and the frame at index 0 is the one in
  the scene and the one rendered last. When the timestamps of the scene are numbers,
  the frames are in ascending order of time starting at 0, and the frame shown was
  delivered with a timestamp that no other result undercuts.
\<close>

theorem scene_load_completes:
  assumes "fs \<noteq> []"
    and "list_all (\<lambda>spec. clouds spec type_identifier \<noteq> None) fs"
    and "mset (map snd ds) =
         mset (map snd (drop (length (requests s))
                 (requests (snd (loadPointClouds name fs type_identifier s)))))"
  shows "fst (loadPointClouds name fs type_identifier s) = Return () \<and>
         length (requests (snd (loadPointClouds name fs type_identifier s))) =
           length (requests s) + length fs \<and>
         (let s2 = run (deliver ds) (snd (loadPointClouds name fs type_identifier s))
          in loaded s2 \<and> length (frames s2) = length fs \<and> current_frame s2 = Idx 0 \<and>
             mset (map points (frames s2)) = mset (map fst ds) \<and>
             scene_cloud s2 = Some (points (frames s2 ! 0)) \<and>
             last (rendered s2) = Some (points (frames s2 ! 0)) \<and>
             (list_all (\<lambda>spec. is_number (spec_timestamp spec)) fs \<longrightarrow>
                (\<exists>ts. map timestamp (frames s2) = map Num ts \<and> sorted ts) \<and>
                timestamp (frames s2 ! 0) = Num 0 \<and>
                (\<exists>m0. (points (frames s2 ! 0), m0) \<in> set ds \<and>
                   list_all (\<lambda>d. \<not> js_lt (meta_timestamp (snd d)) (meta_timestamp m0)) ds)))"
proof -
  let ?s1 = "snd (loadPointClouds name fs type_identifier s)"
  let ?rs = "drop (length (requests s)) (requests ?s1)"
  let ?s2 = "run (deliver ds) ?s1"
  let ?F = "stored_frames ds"
  let ?t = "?s1\<lparr>frames := frames ?s1 @ ?F\<rparr>"
  note li = loadPointClouds_issues [OF assms(1,2), of name s]
  have iss: "issued (event_identifier ?s1) (length fs) fs ?rs" by (rule li(2))
  note tg = tagged_from_issued [OF iss assms(3)]
  have f1: "frames ?s1 = []" by (simp add: loadPointClouds_fields)
  have ne: "ds \<noteq> []" using tg(2) assms(1) by auto
  have len: "length (frames ?s1) + length ds = length fs"
    by (simp add: f1 tg(2))
  note dc = deliver_complete [OF tg(1) len ne]
  have ft: "frames ?t = ?F" by (simp add: f1)
  have Fne: "?F \<noteq> []" using ne by (simp add: stored_frames_def)
  have c1: "length (requests ?s1) = length (requests s) + length fs"
  proof -
    have "length ?rs = length fs" using iss by (simp add: issued_def)
    moreover have "length (requests s) \<le> length (requests ?s1)"
      using calculation assms(1) by (cases "length (requests s) \<le> length (requests ?s1)") auto
    ultimately show ?thesis by simp
  qed
  have c2: "length (frames ?s2) = length fs"
    by (simp add: dc(4) length_normalizeFrames f1 stored_frames_fields tg(2))
  have "image_mset points (mset (frames ?s2)) = image_mset points (mset ?F)"
    by (simp add: dc(4) points_normalizeFrames f1)
  then have c3: "mset (map points (frames ?s2)) = mset (map fst ds)"
    by (simp flip: stored_frames_fields(1))
  have c4: "(\<exists>ts. map timestamp (frames ?s2) = map Num ts \<and> sorted ts) \<and>
            timestamp (frames ?s2 ! 0) = Num 0 \<and>
            (\<exists>m0. (points (frames ?s2 ! 0), m0) \<in> set ds \<and>
               list_all (\<lambda>d. \<not> js_lt (meta_timestamp (snd d)) (meta_timestamp m0)) ds)"
    if nums: "list_all (\<lambda>spec. is_number (spec_timestamp spec)) fs"
  proof -
    have "set (map timestamp ?F) = set (map spec_timestamp fs)"
      using tg(3) by (metis stored_frames_fields(2) set_mset_mset)
    then have "\<forall>t\<in>set (map timestamp ?F). is_number t"
      using nums by (auto simp: list_all_iff)
    then have num: "numeric ?F"
      by (simp add: numeric_def list_all_iff)
    have fr: "frames ?s2 = frames (normalizeFrames ?t)" by (rule dc(4))
    have tne: "frames ?t \<noteq> []" using Fne by (simp add: ft)
    have numt: "numeric (frames ?t)" using num by (simp add: ft)
    note nn = normalized_numeric [OF tne numt]
    have a: "\<exists>ts. map timestamp (frames ?s2) = map Num ts \<and> sorted ts"
      unfolding fr normalizeFrames_frames [OF tne] by (rule nn(3))
    have b: "timestamp (frames ?s2 ! 0) = Num 0"
      unfolding fr normalizeFrames_frames [OF tne] by (rule nn(4))
    let ?h = "array_sort compareByTimestamp ?F ! 0"
    have hp: "points (frames ?s2 ! 0) = points ?h"
      unfolding fr using normalized_head_points [OF tne] by (simp only: ft)
    note hm = array_sort_head_min [OF num Fne]
    from hm(1) obtain d where d: "d \<in> set ds" "?h = stored_frame (fst d) (snd d)"
      by (auto simp: stored_frames_def split_def)
    have "\<not> js_lt (meta_timestamp (snd e)) (meta_timestamp (snd d))" if "e \<in> set ds" for e
    proof -
      have "stored_frame (fst e) (snd e) \<in> set ?F"
        using that by (auto simp: stored_frames_def split_def)
      with hm(2) have "\<not> js_lt (timestamp (stored_frame (fst e) (snd e))) (timestamp ?h)"
        by blast
      then show ?thesis by (simp add: d(2) stored_frame_def)
    qed
    then have "list_all (\<lambda>e. \<not> js_lt (meta_timestamp (snd e)) (meta_timestamp (snd d))) ds"
      by (simp add: list_all_iff)
    moreover have "(points (frames ?s2 ! 0), snd d) \<in> set ds"
      using d by (simp add: hp stored_frame_def)
    ultimately show ?thesis using a b by blast
  qed
  show ?thesis
    unfolding Let_def
    using li(1) c1 dc(1) c2 dc(2) c3 dc(5) dc(6) c4 by blast
qed

text \<open>
  The theorem at the example scene, with the result of the second frame coming back
  before the result of the first.
\<close>

theorem scene_load_completes_witness:
  "example_specs \<noteq> [] \<and>
   list_all (\<lambda>spec. clouds spec ''color'' \<noteq> None) example_specs \<and>
   list_all (\<lambda>spec. is_number (spec_timestamp spec)) example_specs \<and>
   mset (map snd example_results) =
     mset (map snd (drop (length (requests (new_player False)))
             (requests (snd (loadPointClouds ''s'' example_specs ''color'' (new_player False)))))) \<and>
   loaded (run (deliver example_results)
             (snd (loadPointClouds ''s'' example_specs ''color'' (new_player False)))) \<and>
   length (frames (run (deliver example_results)
             (snd (loadPointClouds ''s'' example_specs ''color'' (new_player False))))) = 2 \<and>
   current_frame (run (deliver example_results)
             (snd (loadPointClouds ''s'' example_specs ''color'' (new_player False)))) = Idx 0 \<and>
   mset (map points (frames (run (deliver example_results)
             (snd (loadPointClouds ''s'' example_specs ''color'' (new_player False)))))) =
     {#Points 1, Points 2#} \<and>
   timestamp (frames (run (deliver example_results)
             (snd (loadPointClouds ''s'' example_specs ''color'' (new_player False)))) ! 0) = Num 0"
proof -
  have h1: "example_specs \<noteq> []"
    by (simp add: example_specs_def)
  have h2: "list_all (\<lambda>spec. clouds spec ''color'' \<noteq> None) example_specs"
    by (simp add: example_specs_def)
  have h3: "mset (map snd example_results) =
     mset (map snd (drop (length (requests (new_player False)))
             (requests (snd (loadPointClouds ''s'' example_specs ''color'' (new_player False))))))"
  proof -
    have "requests (new_player False) = []" by (simp add: new_player_def)
    then show ?thesis
      by (simp add: example_requests example_results_def flip: drop_map)
  qed
  have h4: "list_all (\<lambda>spec. is_number (spec_timestamp spec)) example_specs"
    by (simp add: example_specs_def)
  show ?thesis
    using h1 h2 h3 h4 scene_load_completes [OF h1 h2 h3]
    by (simp add: Let_def example_results_def example_specs_def)
qed

end
